theory Spec2Isabelle
  imports Main "HOL-Library.Sublist"
begin

section \<open>The diagnostic parser (class DiagnosticParser)\<close>

text \<open>
  The parser turns one line of cargo's JSON output into a list of file diagnostics.
  The interfaces of the source become datatypes and records. Fields that no method
  of the parser reads (\<open>byte_start\<close>, \<open>byte_end\<close>, \<open>text\<close>, \<open>suggested_replacement\<close>,
  \<open>rendered\<close>, \<open>package_id\<close>, \<open>target\<close>) are left out. JavaScript numbers that hold
  line and column positions are modelled as \<open>int\<close>, the message counter as \<open>nat\<close>
  (it starts at 0 and is only ever incremented; doubles are exact far beyond any
  number of messages a build can print). A field that may be \<open>null\<close> or absent in the
  JSON is an \<open>option\<close>.
\<close>

datatype error = SyntaxError | TypeError | ThrownError string

datatype DiagnosticSeverity = Error | Warning | Information | Hint

text \<open>
  The four arguments handed to the constructor of a vscode \<open>Range\<close>. What the
  constructor makes of them (it puts the two positions in order and refuses a negative
  number) is the library's and is not modelled.
\<close>

record Range =
  startLine :: int
  startCharacter :: int
  endLine :: int
  endCharacter :: int

record Diagnostic =
  diag_range :: Range
  diag_message :: string
  severity :: DiagnosticSeverity

record FileDiagnostic =
  filePath :: string
  diagnostic :: Diagnostic

record CompilerMessageCode =
  code :: string
  explanation :: string

datatype CompilerMessageSpan = CompilerMessageSpan
    (column_end: int)
    (column_start: int)
    (expansion: "CompilerMessageSpanExpansion option")
    (file_name: string)
    (is_primary: bool)
    (label: "string option")
    (line_end: int)
    (line_start: int)
and CompilerMessageSpanExpansion = CompilerMessageSpanExpansion
    (def_site_span: CompilerMessageSpan)
    (macro_decl_name: string)
    (span: CompilerMessageSpan)

text \<open>
  The source types \<open>children\<close> as \<open>any[]\<close> and reads \<open>level\<close>, \<open>message\<close> and
  the optional \<open>children\<close> of every entry.
\<close>

datatype Child = Child
    (child_level: string)
    (child_message: string)
    (child_children: "Child list option")

record CompilerMessage =
  children :: "Child list"
  msg_code :: "CompilerMessageCode option"
  level :: string
  message :: string
  spans :: "CompilerMessageSpan list"

text \<open>
  A cargo message as \<open>parseLine\<close> reads it: the \<open>reason\<close> string and, for a compiler
  message, the \<open>message\<close> object.
\<close>

record CargoMessage =
  cargo_message :: "CompilerMessage option"
  reason :: string

record DiagnosticParser =
  complexMessageIndex :: nat

definition new_DiagnosticParser :: DiagnosticParser where
  "new_DiagnosticParser = \<lparr>complexMessageIndex = 0\<rparr>"

subsection \<open>JavaScript primitives used by the parser\<close>

text \<open>A string is truthy when it is present and not empty.\<close>

fun truthy :: "string option \<Rightarrow> bool" where
  "truthy None = False"
| "truthy (Some s) = (s \<noteq> [])"

text \<open>The decimal rendering of a non-negative integer in a template literal.\<close>

fun number_toString :: "nat \<Rightarrow> string" where
  "number_toString n =
     (if n < 10 then [''0123456789'' ! n]
      else number_toString (n div 10) @ [''0123456789'' ! (n mod 10)])"

declare number_toString.simps [simp del]

definition repeat :: "string \<Rightarrow> nat \<Rightarrow> string" where
  "repeat s n = concat (replicate n s)"

definition newline :: string where
  "newline = [CHR 0x0A]"

subsection \<open>The methods\<close>

definition toSeverity :: "string \<Rightarrow> DiagnosticSeverity" where
  "toSeverity s =
     (if s = ''warning'' then Warning
      else if s = ''note'' then Information
      else if s = ''help'' then Hint
      else Error)"

fun childrenToString :: "Child list \<Rightarrow> nat \<Rightarrow> string" where
  "childrenToString [] lvl = []"
| "childrenToString (Child clevel cmessage cchildren # rest) lvl =
     (newline @ repeat ''  '' lvl @ clevel @ '': '' @ cmessage)
     @ (case cchildren of
          Some cs \<Rightarrow> childrenToString cs (lvl + 1)
        | None \<Rightarrow> [])
     @ childrenToString rest lvl"

definition isComplexCompilerMessage :: "CompilerMessage \<Rightarrow> error + bool" where
  "isComplexCompilerMessage compilerMessage =
     (case spans compilerMessage of
        [] \<Rightarrow> Inl (ThrownError ''A compiler message must have spans'')
      | s # rest \<Rightarrow>
          if length (spans compilerMessage) > 1 then Inr True
          else if expansion s \<noteq> None then Inr True
          else Inr False)"

definition spanRange :: "CompilerMessageSpan \<Rightarrow> Range" where
  "spanRange s =
     \<lparr>startLine = line_start s - 1, startCharacter = column_start s - 1,
      endLine = line_end s - 1, endCharacter = column_end s - 1\<rparr>"

definition codePrefix :: "CompilerMessage \<Rightarrow> string" where
  "codePrefix compilerMessage =
     (case msg_code compilerMessage of
        Some c \<Rightarrow> code c @ '': ''
      | None \<Rightarrow> [])"

text \<open>
  The body of the loop of \<open>parseComplexCompilerMessage\<close> for one span: \<open>None\<close> is
  the \<open>continue\<close>, \<open>Some\<close> the diagnostic that is pushed.
\<close>

definition complexSpanDiagnostic ::
    "nat \<Rightarrow> CompilerMessage \<Rightarrow> CompilerMessageSpan \<Rightarrow> FileDiagnostic option" where
  "complexSpanDiagnostic idx compilerMessage s =
     (let msg0 = ''('' @ number_toString idx @ '') '' @ codePrefix compilerMessage in
      if is_primary s then
        Some \<lparr>filePath = file_name s,
              diagnostic = \<lparr>diag_range = spanRange s,
                diag_message = msg0 @ message compilerMessage
                  @ (if truthy (label s) then newline @ the (label s) else [])
                  @ childrenToString (children compilerMessage) 1,
                severity = toSeverity (level compilerMessage)\<rparr>\<rparr>
      else if truthy (label s) then
        Some \<lparr>filePath = file_name s,
              diagnostic = \<lparr>diag_range = spanRange s,
                diag_message = msg0 @ the (label s),
                severity = toSeverity (level compilerMessage)\<rparr>\<rparr>
      else None)"

fun complexLoop ::
    "nat \<Rightarrow> CompilerMessage \<Rightarrow> CompilerMessageSpan list \<Rightarrow> FileDiagnostic list
      \<Rightarrow> FileDiagnostic list" where
  "complexLoop idx compilerMessage [] diagnostics = diagnostics"
| "complexLoop idx compilerMessage (s # rest) diagnostics =
     (case complexSpanDiagnostic idx compilerMessage s of
        None \<Rightarrow> complexLoop idx compilerMessage rest diagnostics
      | Some fileDiagnostic \<Rightarrow>
          complexLoop idx compilerMessage rest (diagnostics @ [fileDiagnostic]))"

definition parseComplexCompilerMessage ::
    "DiagnosticParser \<Rightarrow> CompilerMessage \<Rightarrow> FileDiagnostic list" where
  "parseComplexCompilerMessage this compilerMessage =
     complexLoop (complexMessageIndex this) compilerMessage (spans compilerMessage) []"

definition parseSimpleCompilerMessage ::
    "CompilerMessage \<Rightarrow> error + FileDiagnostic list" where
  "parseSimpleCompilerMessage compilerMessage =
     (case spans compilerMessage of
        [] \<Rightarrow> Inl TypeError
      | s # rest \<Rightarrow>
          Inr [\<lparr>filePath = file_name s,
                diagnostic = \<lparr>diag_range = spanRange s,
                  diag_message = codePrefix compilerMessage @ message compilerMessage
                    @ (if truthy (label s) then newline @ the (label s) else [])
                    @ childrenToString (children compilerMessage) 1,
                  severity = toSeverity (level compilerMessage)\<rparr>\<rparr>])"

text \<open>
  The methods that touch \<open>complexMessageIndex\<close> return the parser with the result;
  an exception is \<open>Inl\<close> and leaves the parser as it was when it was thrown.
\<close>

definition parseCompilerMessage ::
    "DiagnosticParser \<Rightarrow> CompilerMessage
      \<Rightarrow> (error + FileDiagnostic list) \<times> DiagnosticParser" where
  "parseCompilerMessage this compilerMessage =
     (if length (spans compilerMessage) = 0 then (Inr [], this)
      else case isComplexCompilerMessage compilerMessage of
        Inl e \<Rightarrow> (Inl e, this)
      | Inr True \<Rightarrow>
          (let this' = this\<lparr>complexMessageIndex := complexMessageIndex this + 1\<rparr>
           in (Inr (parseComplexCompilerMessage this' compilerMessage), this'))
      | Inr False \<Rightarrow> (parseSimpleCompilerMessage compilerMessage, this))"

text \<open>
  \<open>JSON.parse\<close> is the runtime's, not the repository's: it is a parameter that
  returns \<open>None\<close> where \<open>JSON.parse\<close> throws its \<open>SyntaxError\<close> and otherwise the
  parsed value, read at the type the source casts it to. Reading \<open>spans\<close> of a
  missing \<open>message\<close> is a \<open>TypeError\<close>.
\<close>

definition parseLine ::
    "(string \<Rightarrow> CargoMessage option) \<Rightarrow> DiagnosticParser \<Rightarrow> string
      \<Rightarrow> (error + FileDiagnostic list) \<times> DiagnosticParser" where
  "parseLine JSON_parse this line =
     (case JSON_parse line of
        None \<Rightarrow> (Inl SyntaxError, this)
      | Some cargoMessage \<Rightarrow>
          if reason cargoMessage = ''compiler-message'' then
            (case cargo_message cargoMessage of
               None \<Rightarrow> (Inl TypeError, this)
             | Some compilerMessage \<Rightarrow> parseCompilerMessage this compilerMessage)
          else (Inr [], this))"

text \<open>The diagnostics a call of \<open>parseLine\<close> has returned; none when it has thrown.\<close>

definition emitted ::
    "(error + FileDiagnostic list) \<times> DiagnosticParser \<Rightarrow> FileDiagnostic list" where
  "emitted r = (case fst r of Inr ds \<Rightarrow> ds | Inl e \<Rightarrow> [])"

text \<open>
  The parser after a run of lines, each handed to \<open>parseLine\<close> in turn; a call that
  throws leaves the counter where it was.
\<close>

fun parseLines ::
    "(string \<Rightarrow> CargoMessage option) \<Rightarrow> DiagnosticParser \<Rightarrow> string list
      \<Rightarrow> DiagnosticParser" where
  "parseLines JSON_parse this [] = this"
| "parseLines JSON_parse this (line # rest) =
     parseLines JSON_parse (snd (parseLine JSON_parse this line)) rest"

subsection \<open>Sample messages\<close>

text \<open>
  Message A is the single-span error of the specification's first scenario, message B
  a three-span error with a code (one primary span, one labelled and one unlabelled
  secondary span), message C a warning without spans, message D a single span that
  carries an expansion. \<open>sample_JSON_parse\<close> stands for \<open>JSON.parse\<close> on five lines,
  whose message objects are abbreviated by their letters; like \<open>JSON.parse\<close> it skips
  blanks before the value, and it throws on every other line.
\<close>

definition span_A :: CompilerMessageSpan where
  "span_A = CompilerMessageSpan 12 5 None ''src/main.rs'' True None 3 3"

definition message_A :: CompilerMessage where
  "message_A = \<lparr>children = [], msg_code = None, level = ''error'',
     message = ''cannot assign to immutable anonymous field `f.1`'', spans = [span_A]\<rparr>"

definition span_B1 :: CompilerMessageSpan where
  "span_B1 =
     CompilerMessageSpan 20 14 None ''src/main.rs'' True (Some ''expected u32, found &str'') 8 8"

definition span_B2 :: CompilerMessageSpan where
  "span_B2 =
     CompilerMessageSpan 11 8 None ''src/lib.rs'' False (Some ''expected due to this'') 4 4"

definition span_B3 :: CompilerMessageSpan where
  "span_B3 = CompilerMessageSpan 9 1 None ''src/lib.rs'' False None 2 2"

definition message_B :: CompilerMessage where
  "message_B = \<lparr>children = [Child ''note'' ''see the declaration'' None],
     msg_code = Some \<lparr>code = ''E0308'', explanation = []\<rparr>, level = ''error'',
     message = ''mismatched types'', spans = [span_B1, span_B2, span_B3]\<rparr>"

definition message_C :: CompilerMessage where
  "message_C = \<lparr>children = [], msg_code = None, level = ''warning'',
     message = ''unused import'', spans = []\<rparr>"

definition span_D :: CompilerMessageSpan where
  "span_D =
     CompilerMessageSpan 30 1 (Some (CompilerMessageSpanExpansion span_A ''println!'' span_A))
       ''src/macros.rs'' True None 6 6"

definition message_D :: CompilerMessage where
  "message_D = \<lparr>children = [], msg_code = None, level = ''warning'',
     message = ''unused variable'', spans = [span_D]\<rparr>"

definition sample_JSON_parse :: "string \<Rightarrow> CargoMessage option" where
  "sample_JSON_parse line =
     (let json = dropWhile (\<lambda>c. c = CHR '' '') line in
      if json = ''{\"reason\":\"compiler-artifact\"}'' then
        Some \<lparr>cargo_message = None, reason = ''compiler-artifact''\<rparr>
      else if json = ''{\"message\":A,\"reason\":\"compiler-message\"}'' then
        Some \<lparr>cargo_message = Some message_A, reason = ''compiler-message''\<rparr>
      else if json = ''{\"message\":B,\"reason\":\"compiler-message\"}'' then
        Some \<lparr>cargo_message = Some message_B, reason = ''compiler-message''\<rparr>
      else if json = ''{\"message\":C,\"reason\":\"compiler-message\"}'' then
        Some \<lparr>cargo_message = Some message_C, reason = ''compiler-message''\<rparr>
      else if json = ''{\"message\":D,\"reason\":\"compiler-message\"}'' then
        Some \<lparr>cargo_message = Some message_D, reason = ''compiler-message''\<rparr>
      else None)"

section \<open>The process runner (class CargoTask)\<close>

text \<open>
  A \<open>CargoTask\<close> holds the spawned child process (here a number that names it; \<open>None\<close>
  is \<open>null\<close>) and the flag \<open>interrupted\<close>.
\<close>

record CargoTask =
  process :: "nat option"
  interrupted :: bool

definition new_CargoTask :: CargoTask where
  "new_CargoTask = \<lparr>process = None, interrupted = False\<rparr>"

text \<open>
  \<open>kill\<close> returns a promise. Its executor hands \<open>resolve\<close> to \<open>tree-kill\<close> as the
  callback of the \<open>SIGTERM\<close> it sends, in the one branch it has; in every other case
  the executor returns without a call of \<open>resolve\<close> and without having passed it on.
\<close>

datatype KillPromise = ResolvedByTreeKill nat | NeverResolved

definition kill :: "CargoTask \<Rightarrow> CargoTask \<times> KillPromise" where
  "kill this =
     (if \<not> interrupted this \<and> process this \<noteq> None then
        (this\<lparr>interrupted := True\<rparr>, ResolvedByTreeKill (the (process this)))
      else (this, NeverResolved))"

text \<open>
  The promise of \<open>execute\<close> is settled by the listeners of the child: \<open>error\<close> rejects
  with the error, \<open>exit\<close> clears \<open>process\<close> and rejects without a value when the task
  was interrupted, and resolves with the exit code (\<open>null\<close> after a signal) otherwise.

  The error is the runtime's error object, with its \<open>message\<close> and its \<open>code\<close>. For a
  command that cannot be launched the runtime gives the code \<open>ENOENT\<close> and the message
  \<open>spawn\<close>, the path, \<open>ENOENT\<close>; \<open>spawnENOENT\<close> is that error for a path.
\<close>

datatype ProcessError = ProcessError (error_message: string) (error_code: string)

definition spawnENOENT :: "string \<Rightarrow> ProcessError" where
  "spawnENOENT path = ProcessError (''spawn '' @ path @ '' ENOENT'') ''ENOENT''"

datatype Settlement = Resolved "int option" | Rejected "ProcessError option"

definition onProcessError :: "CargoTask \<Rightarrow> ProcessError \<Rightarrow> CargoTask \<times> Settlement" where
  "onProcessError this e = (this, Rejected (Some e))"

definition onProcessExit :: "CargoTask \<Rightarrow> int option \<Rightarrow> CargoTask \<times> Settlement" where
  "onProcessExit this exitCode =
     (this\<lparr>process := None\<rparr>,
      if interrupted this then Rejected None else Resolved exitCode)"

section \<open>Running a task: callbacks and reporting\<close>

text \<open>
  \<open>CargoTaskManager.runCargo\<close> and \<open>OutputChannelCargoTask.execute\<close> build the same
  three callbacks and the same reporting around \<open>CargoTask.execute\<close>. What they write
  to is the record \<open>Sinks\<close>: the text of the output channel, the diagnostics handed to
  the publisher (each with the working directory), the parser, and the messages shown
  by \<open>window.showInformationMessage\<close> and \<open>window.showErrorMessage\<close>. Showing and
  hiding the channel and the status bar items changes none of these and is left out.
\<close>

record Sinks =
  channel :: string
  diagnostics :: "(FileDiagnostic \<times> string) list"
  diagnosticParser :: DiagnosticParser
  informationMessages :: "string list"
  errorMessages :: "string list"

definition startsWith :: "string \<Rightarrow> string \<Rightarrow> bool" where
  "startsWith s p = (take (length p) s = p)"

fun join :: "string list \<Rightarrow> string \<Rightarrow> string" where
  "join [] sep = []"
| "join [x] sep = x"
| "join (x # y # ys) sep = x @ sep @ join (y # ys) sep"

fun int_toString :: "int \<Rightarrow> string" where
  "int_toString n =
     (if n < 0 then ''-'' @ number_toString (nat (- n)) else number_toString (nat n))"

text \<open>
  The variable \<open>exitCode\<close> in a template literal: \<open>None\<close> is \<open>undefined\<close> (never
  assigned), \<open>Some None\<close> is \<open>null\<close>.
\<close>

fun exitCode_toString :: "int option option \<Rightarrow> string" where
  "exitCode_toString None = ''undefined''"
| "exitCode_toString (Some None) = ''null''"
| "exitCode_toString (Some (Some n)) = int_toString n"

definition messageFormatArgs :: "string \<Rightarrow> string list \<Rightarrow> string list" where
  "messageFormatArgs command args =
     (if command \<in> {''build'', ''check'', ''clippy'', ''run'', ''test''}
      then [''--message-format'', ''json''] @ args
      else args)"

definition onStart :: "string \<Rightarrow> string list \<Rightarrow> 'a Sinks_scheme \<Rightarrow> 'a Sinks_scheme" where
  "onStart command args s =
     s\<lparr>channel := ''Started cargo '' @ command @ '' '' @ join args '' '' @ newline\<rparr>"

text \<open>
  \<open>publishingEnabled\<close> is the flag \<open>diagnosticPublishingEnabled\<close> of the manager;
  \<open>OutputChannelCargoTask\<close> has no such flag and always publishes. An exception of
  \<open>parseLine\<close> leaves the callback before anything is published.
\<close>

definition onStdoutLine ::
    "(string \<Rightarrow> CargoMessage option) \<Rightarrow> bool \<Rightarrow> string \<Rightarrow> string
      \<Rightarrow> 'a Sinks_scheme \<Rightarrow> 'a Sinks_scheme" where
  "onStdoutLine JSON_parse publishingEnabled cwd line s =
     (if startsWith line ''{'' then
        (case parseLine JSON_parse (diagnosticParser s) line of
           (Inl e, parser') \<Rightarrow> s\<lparr>diagnosticParser := parser'\<rparr>
         | (Inr fileDiagnostics, parser') \<Rightarrow>
             s\<lparr>diagnosticParser := parser',
               diagnostics := diagnostics s
                 @ (if publishingEnabled then map (\<lambda>d. (d, cwd)) fileDiagnostics else [])\<rparr>)
      else s\<lparr>channel := channel s @ line @ newline\<rparr>)"

definition onStderrLine :: "string \<Rightarrow> 'a Sinks_scheme \<Rightarrow> 'a Sinks_scheme" where
  "onStderrLine line s = s\<lparr>channel := channel s @ line @ newline\<rparr>"

text \<open>
  The two lines appended after the \<open>try\<close> statement. \<open>seconds\<close> is the runtime's
  rendering of the floating-point quotient \<open>(endTime - startTime) / 1000\<close>.
\<close>

definition reportCompletion ::
    "int option option \<Rightarrow> string \<Rightarrow> 'a Sinks_scheme \<Rightarrow> 'a Sinks_scheme" where
  "reportCompletion exitCode seconds s =
     s\<lparr>channel := channel s
        @ ''Completed with code '' @ exitCode_toString exitCode @ newline
        @ ''It took approximately '' @ seconds @ '' seconds'' @ newline\<rparr>"

definition cargoNotAvailable :: string where
  "cargoNotAvailable = ''The \"cargo\" command is not available. Make sure it is installed.''"

text \<open>
  What follows \<open>await ... execute(...)\<close> in both methods, up to the assignment that
  clears the reference to the task (which each method does on its own field). The
  \<open>catch\<close> block returns for an interrupted task and for an error whose message is not
  \<open>ENOENT\<close>; after \<open>showInformationMessage\<close> it has no \<open>return\<close>, and control goes on
  to the statements after the \<open>try\<close>, with \<open>exitCode\<close> never assigned.
\<close>

definition afterExecute :: "Settlement \<Rightarrow> string \<Rightarrow> 'a Sinks_scheme \<Rightarrow> 'a Sinks_scheme" where
  "afterExecute settlement seconds s =
     (case settlement of
        Resolved exitCode \<Rightarrow> reportCompletion (Some exitCode) seconds s
      | Rejected None \<Rightarrow> s
      | Rejected (Some e) \<Rightarrow>
          if error_message e \<noteq> ''ENOENT'' then s
          else reportCompletion None seconds
                 (s\<lparr>informationMessages := informationMessages s @ [cargoNotAvailable]\<rparr>))"

subsection \<open>OutputChannelCargoTask.execute\<close>

record OutputChannelCargoTask = Sinks +
  runningTask :: "CargoTask option"

definition new_OutputChannelCargoTask :: OutputChannelCargoTask where
  "new_OutputChannelCargoTask =
     \<lparr>channel = [], diagnostics = [], diagnosticParser = new_DiagnosticParser,
      informationMessages = [], errorMessages = [], runningTask = None\<rparr>"

text \<open>
  The method up to its \<open>await\<close>, with the synchronous part of \<open>CargoTask.execute\<close>:
  \<open>onStart\<close> runs before the spawn, whose child is \<open>child\<close>.
\<close>

definition execute_begin ::
    "string \<Rightarrow> string list \<Rightarrow> nat \<Rightarrow> OutputChannelCargoTask \<Rightarrow> OutputChannelCargoTask" where
  "execute_begin command args child this =
     (onStart command (messageFormatArgs command args) (this\<lparr>diagnostics := []\<rparr>))
       \<lparr>runningTask := Some (new_CargoTask\<lparr>process := Some child\<rparr>)\<rparr>"

definition execute_settled ::
    "Settlement \<Rightarrow> string \<Rightarrow> OutputChannelCargoTask \<Rightarrow> OutputChannelCargoTask" where
  "execute_settled settlement seconds this =
     afterExecute settlement seconds (this\<lparr>runningTask := None\<rparr>)"

subsection \<open>CargoTaskManager\<close>

text \<open>
  \<open>runCargo\<close>, \<open>invokeCargoNew\<close> and \<open>invokeCargoInit\<close> are \<open>async\<close> methods: each
  runs in pieces, between which other events are handled. The manager is therefore a
  state machine. Its state holds, besides the sinks,
  \<^item> \<open>heap\<close>: the \<open>CargoTask\<close> objects the manager has created, each with the argument
    vector of its spawn, the \<open>cwd\<close> its callbacks have captured, whether the promise of
    its \<open>execute\<close> is still pending, and which method awaits that promise; the child of
    the task at index \<open>c\<close> is named \<open>c\<close>;
  \<^item> \<open>currentTask\<close>: the reference \<open>this.currentTask\<close>, an index into the heap;
  \<^item> \<open>awaitingCwd\<close>: the calls of \<open>runCargo\<close> that wait for \<open>cwd()\<close>;
  \<^item> \<open>awaitingKill\<close>: the calls that wait at \<open>await this.currentTask.kill()\<close> for a
    promise that \<open>tree-kill\<close> will resolve, with the task they have killed;
  \<^item> \<open>signalled\<close>: the children \<open>tree-kill\<close> has been called on.
  A call that waits for a promise nothing resolves is in neither list: it never resumes.
\<close>

datatype CrateType = Application | Library

text \<open>
  Who waits for a call of \<open>runCargo\<close> to return: nobody (the \<open>invokeCargo...\<close> methods
  and the forced branch drop the promise), or \<open>invokeCargoInit\<close>, which then runs a task
  of its own with its arguments in its directory.
\<close>

datatype Caller = Detached | AwaitedByInit "string list" string

type_synonym Request = "string \<times> string list \<times> bool \<times> Caller"

text \<open>
  Which method awaits the promise of a task's \<open>execute\<close>: a call of \<open>runCargo\<close> (with
  its own caller), or \<open>invokeCargoNew\<close> or \<open>invokeCargoInit\<close> themselves.
\<close>

datatype Awaiter = ByRunCargo Caller | ByInvoke

record RunningCargo =
  cargoTask :: CargoTask
  argv :: "string list"
  taskCwd :: string
  pending :: bool
  awaiter :: Awaiter

record CargoTaskManager = Sinks +
  currentTask :: "nat option"
  heap :: "RunningCargo list"
  diagnosticPublishingEnabled :: bool
  awaitingCwd :: "Request list"
  awaitingKill :: "(nat \<times> Request) list"
  signalled :: "nat list"

definition new_CargoTaskManager :: "bool \<Rightarrow> CargoTaskManager" where
  "new_CargoTaskManager enabled =
     \<lparr>channel = [], diagnostics = [], diagnosticParser = new_DiagnosticParser,
      informationMessages = [], errorMessages = [],
      currentTask = None, heap = [], diagnosticPublishingEnabled = enabled,
      awaitingCwd = [], awaitingKill = [], signalled = []\<rparr>"

text \<open>
  \<open>this.currentTask.kill()\<close> on the task at index \<open>c\<close>: the task is updated in place,
  and a signal is recorded when the promise is one that \<open>tree-kill\<close> resolves.
\<close>

definition killTask :: "nat \<Rightarrow> CargoTaskManager \<Rightarrow> CargoTaskManager \<times> KillPromise" where
  "killTask c this =
     (if c < length (heap this) then
        (case kill (cargoTask (heap this ! c)) of
           (task', ResolvedByTreeKill child) \<Rightarrow>
             (this\<lparr>heap := (heap this)[c := (heap this ! c)\<lparr>cargoTask := task'\<rparr>],
                   signalled := signalled this @ [child]\<rparr>, ResolvedByTreeKill child)
         | (task', NeverResolved) \<Rightarrow> (this, NeverResolved))
      else (this, NeverResolved))"

text \<open>
  \<open>this.currentTask = new CargoTask(...)\<close> followed by the synchronous part of its
  \<open>execute\<close>, the spawn: a new task on the heap, which becomes the current one.
\<close>

definition spawnTask ::
    "string list \<Rightarrow> string \<Rightarrow> Awaiter \<Rightarrow> CargoTaskManager \<Rightarrow> CargoTaskManager" where
  "spawnTask av cwd aw this =
     this\<lparr>currentTask := Some (length (heap this)),
          heap := heap this
            @ [\<lparr>cargoTask = new_CargoTask\<lparr>process := Some (length (heap this))\<rparr>,
                argv = av, taskCwd = cwd, pending = True, awaiter = aw\<rparr>]\<rparr>"

text \<open>
  The body of \<open>invokeCargoNew\<close>, which is also the second half of \<open>invokeCargoInit\<close>, up
  to its \<open>await\<close>: the reference is assigned without a look at the task it holds, the
  channel is cleared, and the task is run with no \<open>onStart\<close> and with \<open>onLine\<close> for both
  streams.
\<close>

definition startOwnTask ::
    "string \<Rightarrow> string list \<Rightarrow> string \<Rightarrow> CargoTaskManager \<Rightarrow> CargoTaskManager" where
  "startOwnTask command args cwd this =
     spawnTask (command # args) cwd ByInvoke (this\<lparr>channel := []\<rparr>)"

definition onLine :: "string \<Rightarrow> 'a Sinks_scheme \<Rightarrow> 'a Sinks_scheme" where
  "onLine line s = s\<lparr>channel := channel s @ line @ newline\<rparr>"

text \<open>A call of \<open>runCargo\<close> returns, and its caller goes on.\<close>

definition runCargo_return :: "Caller \<Rightarrow> CargoTaskManager \<Rightarrow> CargoTaskManager" where
  "runCargo_return caller this =
     (case caller of
        Detached \<Rightarrow> this
      | AwaitedByInit args cwd \<Rightarrow> startOwnTask ''init'' args cwd this)"

text \<open>
  \<open>runCargo\<close> from the moment \<open>cwd()\<close> has resolved up to its next \<open>await\<close> or its
  \<open>return\<close>: the single-flight policy, and for a request that may start, everything up
  to and including the synchronous part of \<open>CargoTask.execute\<close> (\<open>onStart\<close>, then the
  spawn).
\<close>

definition runCargo_resume :: "Request \<Rightarrow> string \<Rightarrow> CargoTaskManager \<Rightarrow> CargoTaskManager" where
  "runCargo_resume request cwd this =
     (case request of (command, args, force, caller) \<Rightarrow>
        (case currentTask this of
           Some c \<Rightarrow>
             if force then
               (case killTask c this of
                  (this', ResolvedByTreeKill child) \<Rightarrow>
                    this'\<lparr>awaitingKill := awaitingKill this' @ [(c, request)]\<rparr>
                | (this', NeverResolved) \<Rightarrow> this')
             else runCargo_return caller this
         | None \<Rightarrow>
             (let args' = messageFormatArgs command args
              in spawnTask (command # args') cwd (ByRunCargo caller)
                   (onStart command args' (this\<lparr>diagnostics := []\<rparr>)))))"

text \<open>
  The call that waited for \<open>kill()\<close> goes on: it calls \<open>this.runCargo(command, args,
  force)\<close>, whose promise it drops, and returns.
\<close>

definition runCargo_killed :: "Request \<Rightarrow> CargoTaskManager \<Rightarrow> CargoTaskManager" where
  "runCargo_killed request this =
     (case request of (command, args, force, caller) \<Rightarrow>
        runCargo_return caller
          (this\<lparr>awaitingCwd := awaitingCwd this @ [(command, args, force, Detached)]\<rparr>))"

text \<open>
  The rest of \<open>runCargo\<close>, run when the promise of \<open>execute\<close> has settled; every path
  through it ends the call.
\<close>

definition runCargo_settled ::
    "Caller \<Rightarrow> Settlement \<Rightarrow> string \<Rightarrow> CargoTaskManager \<Rightarrow> CargoTaskManager" where
  "runCargo_settled caller settlement seconds this =
     runCargo_return caller (afterExecute settlement seconds (this\<lparr>currentTask := None\<rparr>))"

text \<open>
  The rest of \<open>invokeCargoNew\<close> and of \<open>invokeCargoInit\<close>: the reference is cleared when
  the promise has resolved; a rejection leaves the method at the \<open>await\<close>, and the
  reference stays.
\<close>

definition ownTask_settled :: "Settlement \<Rightarrow> CargoTaskManager \<Rightarrow> CargoTaskManager" where
  "ownTask_settled settlement this =
     (case settlement of
        Resolved exitCode \<Rightarrow> this\<lparr>currentTask := None\<rparr>
      | Rejected e \<Rightarrow> this)"

text \<open>
  The events the manager reacts to:
  \<^item> \<open>RunCargo\<close>: one of the \<open>invokeCargo...\<close> methods calls \<open>runCargo\<close>, which starts
    \<open>cwd()\<close> and waits;
  \<^item> \<open>InvokeCargoNew\<close>: the method of that name, which runs its task at once;
  \<^item> \<open>InvokeCargoInit\<close>: the method of that name, which calls \<open>runCargo('init', args,
    false)\<close> and awaits it. Its array literal starts with a hole, which \<open>join\<close> renders as
    the empty string; the model has the empty string in its place;
  \<^item> \<open>CwdSettled k r\<close>: \<open>cwd()\<close> settles for the \<open>k\<close>-th waiting call, rejected with a
    message (\<open>Inl\<close>) or resolved with a directory (\<open>Inr\<close>);
  \<^item> \<open>StopTask\<close>: the method \<open>stopTask\<close>, whose \<open>kill()\<close> promise nobody awaits;
  \<^item> \<open>TreeKillDone c\<close>: \<open>tree-kill\<close> calls back for the kill of task \<open>c\<close>, and the call
    that awaits it goes on;
  \<^item> \<open>Stdout\<close>, \<open>Stderr\<close>: a line of the child of task \<open>c\<close>;
  \<^item> \<open>ProcessFailed\<close>, \<open>ProcessExited\<close>: the \<open>error\<close> or \<open>exit\<close> event of the child of
    task \<open>c\<close>, with the rendering of the elapsed seconds for the report. A promise settles
    once, so the event counts only while the promise of the task is pending.
  An event that names a call or a task that does not exist changes nothing.
\<close>

datatype Event =
    RunCargo string "string list" bool
  | InvokeCargoNew string bool string
  | InvokeCargoInit CrateType string string
  | CwdSettled nat "string + string"
  | StopTask
  | TreeKillDone nat
  | Stdout nat string
  | Stderr nat string
  | ProcessFailed nat ProcessError string
  | ProcessExited nat "int option" string

text \<open>
  The listener of the child has run on task \<open>c\<close> and settled its promise with
  \<open>outcome\<close>; the method that awaited the promise goes on.
\<close>

definition settle ::
    "nat \<Rightarrow> CargoTask \<times> Settlement \<Rightarrow> string \<Rightarrow> CargoTaskManager \<Rightarrow> CargoTaskManager" where
  "settle c outcome seconds this =
     (let this1 = this\<lparr>heap := (heap this)[c := (heap this ! c)\<lparr>cargoTask := fst outcome,
                                                            pending := False\<rparr>]\<rparr>
      in case awaiter (heap this ! c) of
           ByRunCargo caller \<Rightarrow> runCargo_settled caller (snd outcome) seconds this1
         | ByInvoke \<Rightarrow> ownTask_settled (snd outcome) this1)"

definition initArgs :: "CrateType \<Rightarrow> string \<Rightarrow> string list" where
  "initArgs crateType name =
     [[], ''--name'', name] @ (case crateType of Application \<Rightarrow> [''--bin''] | Library \<Rightarrow> [''--lib''])"

fun step ::
    "(string \<Rightarrow> CargoMessage option) \<Rightarrow> CargoTaskManager \<Rightarrow> Event \<Rightarrow> CargoTaskManager" where
  "step JSON_parse this (RunCargo command args force) =
     this\<lparr>awaitingCwd := awaitingCwd this @ [(command, args, force, Detached)]\<rparr>"
| "step JSON_parse this (InvokeCargoNew projectName isBin cwd) =
     startOwnTask ''new'' [projectName, if isBin then ''--bin'' else ''--lib''] cwd this"
| "step JSON_parse this (InvokeCargoInit crateType name cwd) =
     this\<lparr>awaitingCwd := awaitingCwd this
        @ [(''init'', initArgs crateType name, False,
            AwaitedByInit (initArgs crateType name) cwd)]\<rparr>"
| "step JSON_parse this (CwdSettled k r) =
     (if k < length (awaitingCwd this) then
        (let request = awaitingCwd this ! k;
             this1 = this\<lparr>awaitingCwd :=
                       take k (awaitingCwd this) @ drop (Suc k) (awaitingCwd this)\<rparr>
         in case r of
              Inl msg \<Rightarrow>
                runCargo_return (snd (snd (snd request)))
                  (this1\<lparr>errorMessages := errorMessages this1 @ [msg]\<rparr>)
            | Inr cwd \<Rightarrow> runCargo_resume request cwd this1)
      else this)"
| "step JSON_parse this StopTask =
     (case currentTask this of
        Some c \<Rightarrow> fst (killTask c this)
      | None \<Rightarrow> this)"
| "step JSON_parse this (TreeKillDone c) =
     foldl (\<lambda>s request. runCargo_killed request s)
       (this\<lparr>awaitingKill := filter (\<lambda>w. fst w \<noteq> c) (awaitingKill this)\<rparr>)
       (map snd (filter (\<lambda>w. fst w = c) (awaitingKill this)))"
| "step JSON_parse this (Stdout c line) =
     (if c < length (heap this) then
        (case awaiter (heap this ! c) of
           ByRunCargo caller \<Rightarrow>
             onStdoutLine JSON_parse (diagnosticPublishingEnabled this)
               (taskCwd (heap this ! c)) line this
         | ByInvoke \<Rightarrow> onLine line this)
      else this)"
| "step JSON_parse this (Stderr c line) =
     (if c < length (heap this) then
        (case awaiter (heap this ! c) of
           ByRunCargo caller \<Rightarrow> onStderrLine line this
         | ByInvoke \<Rightarrow> onLine line this)
      else this)"
| "step JSON_parse this (ProcessFailed c e seconds) =
     (if c < length (heap this) \<and> pending (heap this ! c) then
        settle c (onProcessError (cargoTask (heap this ! c)) e) seconds this
      else this)"
| "step JSON_parse this (ProcessExited c exitCode seconds) =
     (if c < length (heap this) \<and> pending (heap this ! c) then
        settle c (onProcessExit (cargoTask (heap this ! c)) exitCode) seconds this
      else this)"

definition run ::
    "(string \<Rightarrow> CargoMessage option) \<Rightarrow> CargoTaskManager \<Rightarrow> Event list \<Rightarrow> CargoTaskManager" where
  "run JSON_parse this events = foldl (step JSON_parse) this events"

subsection \<open>CargoTaskManager.invokeCargoCheckWithArgs\<close>

text \<open>
  The method awaits \<open>checkCargoCheckAvailability\<close>, which runs a task of its own for
  \<open>cargo check --help\<close> in \<open>/\<close>, and then calls \<open>runCargo\<close>. Its model returns the calls
  it makes, given how the probe's promise settles; a rejected probe ends the method
  before \<open>runCargo\<close>. Neither method keeps the answer of the probe. \<open>args.push\<close>
  extends the array of the caller; the model gives the extended array to \<open>runCargo\<close>
  and does not follow the caller's copy.
\<close>

datatype Call =
    Execute string "string list" string
  | RunCargoCall string "string list" bool

definition checkCargoCheckAvailability :: "Settlement \<Rightarrow> Call list \<times> (ProcessError option + bool)" where
  "checkCargoCheckAvailability probe =
     ([Execute ''check'' [''--help''] ''/''],
      case probe of
        Resolved exitCode \<Rightarrow> Inr (exitCode = Some 0)
      | Rejected e \<Rightarrow> Inl e)"

definition invokeCargoCheckWithArgs :: "Settlement \<Rightarrow> string list \<Rightarrow> Call list" where
  "invokeCargoCheckWithArgs probe args =
     (case checkCargoCheckAvailability probe of
        (calls, Inl e) \<Rightarrow> calls
      | (calls, Inr isAvailable) \<Rightarrow>
          if isAvailable then calls @ [RunCargoCall ''check'' args True]
          else calls @ [RunCargoCall ''rustc'' (args @ [''--'', ''-Zno-trans'']) True])"

text \<open>
  A series of check invocations, each with the settlement of its probe and its
  arguments, and the probes among the calls made.
\<close>

fun checkInvocations :: "(Settlement \<times> string list) list \<Rightarrow> Call list" where
  "checkInvocations [] = []"
| "checkInvocations ((probe, args) # rest) =
     invokeCargoCheckWithArgs probe args @ checkInvocations rest"

fun isProbe :: "Call \<Rightarrow> bool" where
  "isProbe (Execute command args cwd) =
     (command = ''check'' \<and> args = [''--help''] \<and> cwd = ''/'')"
| "isProbe (RunCargoCall command args force) = False"

subsection \<open>The policy among calls of runCargo\<close>

text \<open>
  The events that go through the test of \<open>runCargo\<close>: all but the two methods that
  assign \<open>currentTask\<close> on their own.
\<close>

fun viaRunCargo :: "Event \<Rightarrow> bool" where
  "viaRunCargo (InvokeCargoNew projectName isBin cwd) = False"
| "viaRunCargo (InvokeCargoInit crateType name cwd) = False"
| "viaRunCargo e = True"

text \<open>
  What holds of every state the manager reaches from its initial one by such events
  alone: a task whose promise is pending is the current task and still has its child,
  the current task is a task of the heap whose promise is pending, an interrupted task
  has had its signal, and every task and every waiting call is one of \<open>runCargo\<close> with
  nobody waiting for it.
\<close>

definition consistent :: "CargoTaskManager \<Rightarrow> bool" where
  "consistent this \<longleftrightarrow>
     (\<forall>c < length (heap this). pending (heap this ! c) \<longrightarrow>
        currentTask this = Some c \<and> process (cargoTask (heap this ! c)) = Some c)
     \<and> (\<forall>c. currentTask this = Some c \<longrightarrow>
          c < length (heap this) \<and> pending (heap this ! c))
     \<and> (\<forall>c < length (heap this). interrupted (cargoTask (heap this ! c)) \<longrightarrow>
          c \<in> set (signalled this))
     \<and> (\<forall>c < length (heap this). awaiter (heap this ! c) = ByRunCargo Detached)
     \<and> (\<forall>r \<in> set (awaitingCwd this). snd (snd (snd r)) = Detached)
     \<and> (\<forall>w \<in> set (awaitingKill this). snd (snd (snd (snd w))) = Detached)"

subsection \<open>Sample runs\<close>

text \<open>
  A build is running in each. In \<open>restartRun\<close> a forced test is requested, the signal
  is sent, and \<open>cwd()\<close> of the re-issued call comes back before the build has exited;
  then the build exits. In \<open>restartAfterExitRun\<close> the build exits before the re-issued
  call looks at \<open>currentTask\<close>. In \<open>newProjectRun\<close> a project is created with
  \<open>invokeCargoNew\<close> while the build runs, \<open>cargo new\<close> exits with code 0, and a test is
  requested, with or without \<open>force\<close>.
\<close>

definition restartRun :: "Event list" where
  "restartRun =
     [RunCargo ''build'' [] True, CwdSettled 0 (Inr ''/work''),
      RunCargo ''test'' [] True, CwdSettled 0 (Inr ''/work''),
      TreeKillDone 0, CwdSettled 0 (Inr ''/work''),
      ProcessExited 0 None ''1.5'']"

definition restartAfterExitRun :: "Event list" where
  "restartAfterExitRun =
     [RunCargo ''build'' [] True, CwdSettled 0 (Inr ''/work''),
      RunCargo ''test'' [] True, CwdSettled 0 (Inr ''/work''),
      ProcessExited 0 None ''1.5'', TreeKillDone 0, CwdSettled 0 (Inr ''/work'')]"

definition newProjectRun :: "bool \<Rightarrow> Event list" where
  "newProjectRun force =
     [RunCargo ''build'' [] True, CwdSettled 0 (Inr ''/work''),
      InvokeCargoNew ''demo'' True ''/work'', ProcessExited 1 (Some 0) ''0.2'',
      RunCargo ''test'' [] force, CwdSettled 0 (Inr ''/work'')]"
section \<open>Properties of the diagnostic parser\<close>

text \<open>
  The loop of \<open>parseComplexCompilerMessage\<close> appends to what it has collected, span by
  span; its result for a list of spans is the concatenation of what each span emits.
\<close>

lemma complexLoop_acc:
  "complexLoop idx cm xs acc = acc @ complexLoop idx cm xs []"
proof (induction xs arbitrary: acc)
  case Nil
  then show ?case by simp
next
  case (Cons s rest)
  show ?case
  proof (cases "complexSpanDiagnostic idx cm s")
    case None
    then show ?thesis using Cons.IH [of acc] by simp
  next
    case (Some d)
    then show ?thesis using Cons.IH [of "acc @ [d]"] Cons.IH [of "[d]"] by simp
  qed
qed

lemma complexLoop_append:
  "complexLoop idx cm (xs @ ys) [] = complexLoop idx cm xs [] @ complexLoop idx cm ys []"
proof (induction xs)
  case Nil
  then show ?case by simp
next
  case (Cons s rest)
  show ?case
  proof (cases "complexSpanDiagnostic idx cm s")
    case None
    then show ?thesis using Cons.IH by simp
  next
    case (Some d)
    then show ?thesis
      using Cons.IH complexLoop_acc [of idx cm "rest @ ys" "[d]"]
        complexLoop_acc [of idx cm rest "[d]"] by simp
  qed
qed

lemma complexSpanDiagnostic_spans_irrelevant:
  "complexSpanDiagnostic idx (cm\<lparr>spans := xs\<rparr>) s = complexSpanDiagnostic idx cm s"
  by (simp add: complexSpanDiagnostic_def codePrefix_def Let_def)

lemma complexLoop_spans_irrelevant:
  "complexLoop idx (cm\<lparr>spans := zs\<rparr>) xs acc = complexLoop idx cm xs acc"
  by (induction xs arbitrary: acc) (simp_all add: complexSpanDiagnostic_spans_irrelevant split: option.splits)

lemma complexLoop_prefix:
  "d \<in> set (complexLoop idx cm xs []) \<Longrightarrow>
    prefix (''('' @ number_toString idx @ '') '') (diag_message (diagnostic d))"
proof (induction xs)
  case Nil
  then show ?case by simp
next
  case (Cons s rest)
  show ?case
  proof (cases "complexSpanDiagnostic idx cm s")
    case None
    then show ?thesis using Cons by simp
  next
    case (Some d')
    then have "d = d' \<or> d \<in> set (complexLoop idx cm rest [])"
      using Cons.prems complexLoop_acc [of idx cm rest "[d']"] by simp
    moreover have "prefix (''('' @ number_toString idx @ '') '') (diag_message (diagnostic d'))"
      using Some by (auto simp: complexSpanDiagnostic_def Let_def split: if_splits)
    ultimately show ?thesis using Cons.IH by blast
  qed
qed


lemma parseComplex_split:
  assumes "spans cm = pre @ s # post"
  shows "parseComplexCompilerMessage this cm =
     parseComplexCompilerMessage this (cm\<lparr>spans := pre\<rparr>)
     @ (case complexSpanDiagnostic (complexMessageIndex this) cm s of
          None \<Rightarrow> [] | Some d \<Rightarrow> [d])
     @ parseComplexCompilerMessage this (cm\<lparr>spans := post\<rparr>)"
proof -
  let ?i = "complexMessageIndex this"
  have "complexLoop ?i cm (pre @ s # post) [] =
      complexLoop ?i cm pre [] @ complexLoop ?i cm (s # post) []"
    by (rule complexLoop_append)
  moreover have "complexLoop ?i cm (s # post) [] =
      (case complexSpanDiagnostic ?i cm s of None \<Rightarrow> [] | Some d \<Rightarrow> [d])
      @ complexLoop ?i cm post []"
  proof (cases "complexSpanDiagnostic ?i cm s")
    case None
    then show ?thesis by simp
  next
    case (Some d)
    then show ?thesis using complexLoop_acc [of ?i cm post "[d]"] by simp
  qed
  ultimately show ?thesis
    using assms by (simp add: parseComplexCompilerMessage_def complexLoop_spans_irrelevant)
qed

lemma parseCompilerMessage_complex:
  assumes "isComplexCompilerMessage cm = Inr True"
  shows "parseCompilerMessage this cm =
    (Inr (parseComplexCompilerMessage
            (this\<lparr>complexMessageIndex := complexMessageIndex this + 1\<rparr>) cm),
     this\<lparr>complexMessageIndex := complexMessageIndex this + 1\<rparr>)"
proof -
  have "spans cm \<noteq> []"
    using assms by (auto simp: isComplexCompilerMessage_def)
  then show ?thesis
    using assms by (simp add: parseCompilerMessage_def Let_def)
qed

lemma parseCompilerMessage_index_mono:
  "complexMessageIndex this \<le> complexMessageIndex (snd (parseCompilerMessage this cm))"
  by (simp add: parseCompilerMessage_def Let_def split: sum.splits bool.splits)

lemma parseLine_index_mono:
  "complexMessageIndex this \<le> complexMessageIndex (snd (parseLine J this line))"
  by (simp add: parseLine_def parseCompilerMessage_index_mono split: option.splits)

lemma parseLines_index_mono:
  "complexMessageIndex this \<le> complexMessageIndex (parseLines J this ls)"
proof (induction ls arbitrary: this)
  case Nil
  then show ?case by simp
next
  case (Cons l ls)
  have "complexMessageIndex this \<le> complexMessageIndex (snd (parseLine J this l))"
    by (rule parseLine_index_mono)
  also have "\<dots> \<le> complexMessageIndex (parseLines J (snd (parseLine J this l)) ls)"
    by (rule Cons.IH)
  finally show ?case by simp
qed

lemma parseLine_complex:
  assumes "J line = Some \<lparr>cargo_message = Some cm, reason = ''compiler-message''\<rparr>"
    and "isComplexCompilerMessage cm = Inr True"
  shows "parseLine J this line =
    (Inr (parseComplexCompilerMessage
            (this\<lparr>complexMessageIndex := complexMessageIndex this + 1\<rparr>) cm),
     this\<lparr>complexMessageIndex := complexMessageIndex this + 1\<rparr>)"
  using assms by (simp add: parseLine_def parseCompilerMessage_complex)

lemma parseComplex_prefix:
  "d \<in> set (parseComplexCompilerMessage this cm) \<Longrightarrow>
    prefix (''('' @ number_toString (complexMessageIndex this) @ '') '')
      (diag_message (diagnostic d))"
  unfolding parseComplexCompilerMessage_def by (rule complexLoop_prefix)

text \<open>
  Claim C1, as the code has it. In the complex path the parser gives every span its own
  diagnostics, in order: the result for \<open>pre @ s # post\<close> is the result for \<open>pre\<close>, then
  what \<open>s\<close> emits, then the result for \<open>post\<close>. A non-primary span \<open>s\<close> with a truthy
  (present and non-empty) label emits exactly one diagnostic, whose message is
  \<open>"(N) "\<close>, then the message's code and \<open>": "\<close> when the message has a code, then the
  label, where \<open>N\<close> is the counter after its increment; a non-primary span without such a
  label emits nothing.
\<close>

theorem nonprimary_span_diagnostic:
  assumes "isComplexCompilerMessage cm = Inr True"
    and "spans cm = pre @ s # post"
    and "\<not> is_primary s"
    and "this' = this\<lparr>complexMessageIndex := complexMessageIndex this + 1\<rparr>"
  shows "parseCompilerMessage this cm =
     (Inr (parseComplexCompilerMessage this' (cm\<lparr>spans := pre\<rparr>)
        @ (if truthy (label s) then
             [\<lparr>filePath = file_name s,
               diagnostic = \<lparr>diag_range = spanRange s,
                 diag_message = ''('' @ number_toString (complexMessageIndex this') @ '') ''
                   @ codePrefix cm @ the (label s),
                 severity = toSeverity (level cm)\<rparr>\<rparr>]
           else [])
        @ parseComplexCompilerMessage this' (cm\<lparr>spans := post\<rparr>)), this')"
proof -
  have "complexSpanDiagnostic (complexMessageIndex this') cm s =
      (if truthy (label s) then
         Some \<lparr>filePath = file_name s,
           diagnostic = \<lparr>diag_range = spanRange s,
             diag_message = ''('' @ number_toString (complexMessageIndex this') @ '') ''
               @ codePrefix cm @ the (label s),
             severity = toSeverity (level cm)\<rparr>\<rparr>
       else None)"
    using assms(3) by (simp add: complexSpanDiagnostic_def Let_def)
  then have "parseComplexCompilerMessage this' cm =
      parseComplexCompilerMessage this' (cm\<lparr>spans := pre\<rparr>)
      @ (if truthy (label s) then
           [\<lparr>filePath = file_name s,
             diagnostic = \<lparr>diag_range = spanRange s,
               diag_message = ''('' @ number_toString (complexMessageIndex this') @ '') ''
                 @ codePrefix cm @ the (label s),
               severity = toSeverity (level cm)\<rparr>\<rparr>]
         else [])
      @ parseComplexCompilerMessage this' (cm\<lparr>spans := post\<rparr>)"
    using parseComplex_split [OF assms(2), of this'] by simp
  then show ?thesis
    using parseCompilerMessage_complex [OF assms(1), of this] assms(4) by simp
qed

lemma isComplex_message_B: "isComplexCompilerMessage message_B = Inr True"
  by (simp add: isComplexCompilerMessage_def message_B_def)

text \<open>The labelled secondary span of message B, parsed by a fresh parser.\<close>

theorem nonprimary_span_diagnostic_witness:
  "isComplexCompilerMessage message_B = Inr True
   \<and> spans message_B = [span_B1] @ span_B2 # [span_B3]
   \<and> \<not> is_primary span_B2
   \<and> parseCompilerMessage new_DiagnosticParser message_B =
      (Inr (parseComplexCompilerMessage \<lparr>complexMessageIndex = 1\<rparr>
              (message_B\<lparr>spans := [span_B1]\<rparr>)
        @ [\<lparr>filePath = ''src/lib.rs'',
            diagnostic = \<lparr>diag_range =
                \<lparr>startLine = 3, startCharacter = 7, endLine = 3, endCharacter = 10\<rparr>,
              diag_message = ''(1) E0308: expected due to this'',
              severity = Error\<rparr>\<rparr>]
        @ parseComplexCompilerMessage \<lparr>complexMessageIndex = 1\<rparr>
              (message_B\<lparr>spans := [span_B3]\<rparr>)),
       \<lparr>complexMessageIndex = 1\<rparr>)"
proof -
  have c: "isComplexCompilerMessage message_B = Inr True"
    by (rule isComplex_message_B)
  have s: "spans message_B = [span_B1] @ span_B2 # [span_B3]"
    by (simp add: message_B_def)
  have p: "\<not> is_primary span_B2"
    by (simp add: span_B2_def)
  have n: "\<lparr>complexMessageIndex = 1\<rparr> =
      new_DiagnosticParser\<lparr>complexMessageIndex := complexMessageIndex new_DiagnosticParser + 1\<rparr>"
    by (simp add: new_DiagnosticParser_def)
  have l: "label span_B2 = Some ''expected due to this''"
    "file_name span_B2 = ''src/lib.rs''"
    "spanRange span_B2 = \<lparr>startLine = 3, startCharacter = 7, endLine = 3, endCharacter = 10\<rparr>"
    by (simp_all add: span_B2_def spanRange_def)
  have m: "codePrefix message_B = ''E0308: ''" "toSeverity (level message_B) = Error"
    by (simp_all add: codePrefix_def message_B_def toSeverity_def)
  have k: "number_toString (Suc 0) = ''1''"
    by (simp add: number_toString.simps)
  show ?thesis
    using nonprimary_span_diagnostic [OF c s p n] c s p
    by (simp add: l m k)
qed

text \<open>
  The claim as written promises the message \<open>"(N) " + label\<close> for a labelled secondary
  span. Message B has the code E0308, and the diagnostic of its secondary span reads
  \<open>(1) E0308: expected due to this\<close>.
\<close>

theorem nonprimary_label_counterexample:
  "parseCompilerMessage new_DiagnosticParser message_B =
     (Inr [\<lparr>filePath = ''src/main.rs'',
            diagnostic = \<lparr>diag_range =
                \<lparr>startLine = 7, startCharacter = 13, endLine = 7, endCharacter = 19\<rparr>,
              diag_message = ''(1) E0308: mismatched types'' @ newline
                @ ''expected u32, found &str'' @ newline @ ''  note: see the declaration'',
              severity = Error\<rparr>\<rparr>,
           \<lparr>filePath = ''src/lib.rs'',
            diagnostic = \<lparr>diag_range =
                \<lparr>startLine = 3, startCharacter = 7, endLine = 3, endCharacter = 10\<rparr>,
              diag_message = ''(1) E0308: expected due to this'',
              severity = Error\<rparr>\<rparr>],
      \<lparr>complexMessageIndex = 1\<rparr>)
   \<and> label span_B2 = Some ''expected due to this''
   \<and> ''(1) E0308: expected due to this'' \<noteq> ''(1) '' @ ''expected due to this''"
  by (simp add: parseCompilerMessage_def isComplexCompilerMessage_def message_B_def
      parseComplexCompilerMessage_def complexSpanDiagnostic_def codePrefix_def
      span_B1_def span_B2_def span_B3_def spanRange_def new_DiagnosticParser_def
      toSeverity_def number_toString.simps newline_def repeat_def Let_def)

lemma complexLoop_length:
  "length (complexLoop idx cm xs []) =
     length (filter (\<lambda>s. is_primary s \<or> truthy (label s)) xs)"
proof (induction xs)
  case Nil
  then show ?case by simp
next
  case (Cons s rest)
  show ?case
  proof (cases "complexSpanDiagnostic idx cm s")
    case None
    then have "\<not> (is_primary s \<or> truthy (label s))"
      by (auto simp: complexSpanDiagnostic_def Let_def split: if_splits)
    then show ?thesis using None Cons.IH by simp
  next
    case (Some d)
    then have "is_primary s \<or> truthy (label s)"
      by (auto simp: complexSpanDiagnostic_def Let_def split: if_splits)
    then show ?thesis
      using Some Cons.IH complexLoop_acc [of idx cm rest "[d]"] by simp
  qed
qed

lemma parseComplex_length:
  "length (parseComplexCompilerMessage this cm) =
     length (filter (\<lambda>s. is_primary s \<or> truthy (label s)) (spans cm))"
  unfolding parseComplexCompilerMessage_def by (rule complexLoop_length)

text \<open>
  Claim C7. The counter of a new parser is 0. No call of \<open>parseLine\<close>, and no run of
  calls, decreases it. A complex message increments it by one; it emits one diagnostic
  for each of its spans that is primary or has a label, and every one of them starts
  with \<open>"(N) "\<close> for the incremented value \<open>N\<close>; a complex message parsed later by the
  same parser, whatever lines come between, gets a strictly larger number; and two
  complex messages parsed one after the other by a new parser emit diagnostics that
  start with \<open>"(1) "\<close> and \<open>"(2) "\<close>.
\<close>

theorem complex_message_numbering:
  "complexMessageIndex new_DiagnosticParser = 0
   \<and> complexMessageIndex this \<le> complexMessageIndex (snd (parseLine J this line))
   \<and> complexMessageIndex this \<le> complexMessageIndex (parseLines J this between)
   \<and> (J l1 = Some \<lparr>cargo_message = Some cm1, reason = ''compiler-message''\<rparr>
        \<and> isComplexCompilerMessage cm1 = Inr True
        \<and> J l2 = Some \<lparr>cargo_message = Some cm2, reason = ''compiler-message''\<rparr>
        \<and> isComplexCompilerMessage cm2 = Inr True
        \<and> r1 = parseLine J this l1
        \<and> r2 = parseLine J (parseLines J (snd r1) between) l2
      \<longrightarrow> complexMessageIndex (snd r1) = complexMessageIndex this + 1
        \<and> fst r1 = Inr (emitted r1)
        \<and> length (emitted r1) =
            length (filter (\<lambda>s. is_primary s \<or> truthy (label s)) (spans cm1))
        \<and> (\<forall>d \<in> set (emitted r1).
              prefix (''('' @ number_toString (complexMessageIndex (snd r1)) @ '') '')
                (diag_message (diagnostic d)))
        \<and> complexMessageIndex (snd r1) < complexMessageIndex (snd r2)
        \<and> fst r2 = Inr (emitted r2)
        \<and> length (emitted r2) =
            length (filter (\<lambda>s. is_primary s \<or> truthy (label s)) (spans cm2))
        \<and> (\<forall>d \<in> set (emitted r2).
              prefix (''('' @ number_toString (complexMessageIndex (snd r2)) @ '') '')
                (diag_message (diagnostic d)))
        \<and> (this = new_DiagnosticParser \<and> between = [] \<longrightarrow>
              (\<forall>d \<in> set (emitted r1). prefix ''(1) '' (diag_message (diagnostic d)))
              \<and> (\<forall>d \<in> set (emitted r2). prefix ''(2) '' (diag_message (diagnostic d)))))"
proof (intro conjI impI)
  show "complexMessageIndex new_DiagnosticParser = 0"
    by (simp add: new_DiagnosticParser_def)
  show "complexMessageIndex this \<le> complexMessageIndex (snd (parseLine J this line))"
    by (rule parseLine_index_mono)
  show "complexMessageIndex this \<le> complexMessageIndex (parseLines J this between)"
    by (rule parseLines_index_mono)
next
  assume a: "J l1 = Some \<lparr>cargo_message = Some cm1, reason = ''compiler-message''\<rparr>
        \<and> isComplexCompilerMessage cm1 = Inr True
        \<and> J l2 = Some \<lparr>cargo_message = Some cm2, reason = ''compiler-message''\<rparr>
        \<and> isComplexCompilerMessage cm2 = Inr True
        \<and> r1 = parseLine J this l1
        \<and> r2 = parseLine J (parseLines J (snd r1) between) l2"
  let ?p1 = "this\<lparr>complexMessageIndex := complexMessageIndex this + 1\<rparr>"
  let ?mid = "parseLines J (snd r1) between"
  let ?p2 = "?mid\<lparr>complexMessageIndex := complexMessageIndex ?mid + 1\<rparr>"
  have r1: "r1 = (Inr (parseComplexCompilerMessage ?p1 cm1), ?p1)"
    using a parseLine_complex [of J l1 cm1 this] by simp
  have r2: "r2 = (Inr (parseComplexCompilerMessage ?p2 cm2), ?p2)"
    using a parseLine_complex [of J l2 cm2 ?mid] by simp
  have e1: "emitted r1 = parseComplexCompilerMessage (snd r1) cm1"
    using r1 by (simp add: emitted_def)
  have e2: "emitted r2 = parseComplexCompilerMessage (snd r2) cm2"
    using r2 by (simp add: emitted_def)
  show i1: "complexMessageIndex (snd r1) = complexMessageIndex this + 1"
    using r1 by simp
  show "fst r1 = Inr (emitted r1)"
    using r1 by (simp add: emitted_def)
  show "length (emitted r1) =
      length (filter (\<lambda>s. is_primary s \<or> truthy (label s)) (spans cm1))"
    unfolding e1 by (rule parseComplex_length)
  show p1: "\<forall>d \<in> set (emitted r1).
      prefix (''('' @ number_toString (complexMessageIndex (snd r1)) @ '') '')
        (diag_message (diagnostic d))"
    unfolding e1 using parseComplex_prefix by blast
  have "complexMessageIndex (snd r1) \<le> complexMessageIndex ?mid"
    by (rule parseLines_index_mono)
  then show "complexMessageIndex (snd r1) < complexMessageIndex (snd r2)"
    using r2 by simp
  show "fst r2 = Inr (emitted r2)"
    using r2 by (simp add: emitted_def)
  show "length (emitted r2) =
      length (filter (\<lambda>s. is_primary s \<or> truthy (label s)) (spans cm2))"
    unfolding e2 by (rule parseComplex_length)
  show p2: "\<forall>d \<in> set (emitted r2).
      prefix (''('' @ number_toString (complexMessageIndex (snd r2)) @ '') '')
        (diag_message (diagnostic d))"
    unfolding e2 using parseComplex_prefix by blast
  {
    assume f: "this = new_DiagnosticParser \<and> between = []"
    have "complexMessageIndex (snd r1) = 1"
      using i1 f by (simp add: new_DiagnosticParser_def)
    moreover have "number_toString 1 = ''1''"
      by (simp add: number_toString.simps)
    ultimately show "\<forall>d \<in> set (emitted r1). prefix ''(1) '' (diag_message (diagnostic d))"
      using p1 by simp
    have "complexMessageIndex (snd r2) = 2"
      using r2 r1 f by (simp add: new_DiagnosticParser_def)
    moreover have "number_toString 2 = ''2''"
      by (simp add: number_toString.simps)
    ultimately show "\<forall>d \<in> set (emitted r2). prefix ''(2) '' (diag_message (diagnostic d))"
      using p2 by simp
  }
qed

lemma isComplex_message_D: "isComplexCompilerMessage message_D = Inr True"
  by (simp add: isComplexCompilerMessage_def message_D_def span_D_def)

text \<open>
  Message B and then message D, parsed by a new parser: B emits two diagnostics, for its
  primary span and for its labelled secondary span, both numbered 1; D emits one,
  numbered 2.
\<close>

theorem complex_message_numbering_witness:
  "sample_JSON_parse ''{\"message\":B,\"reason\":\"compiler-message\"}'' =
      Some \<lparr>cargo_message = Some message_B, reason = ''compiler-message''\<rparr>
   \<and> isComplexCompilerMessage message_B = Inr True
   \<and> sample_JSON_parse ''{\"message\":D,\"reason\":\"compiler-message\"}'' =
      Some \<lparr>cargo_message = Some message_D, reason = ''compiler-message''\<rparr>
   \<and> isComplexCompilerMessage message_D = Inr True
   \<and> complexMessageIndex (snd (parseLine sample_JSON_parse new_DiagnosticParser
        ''{\"message\":B,\"reason\":\"compiler-message\"}'')) = 1
   \<and> complexMessageIndex (snd (parseLine sample_JSON_parse
        (snd (parseLine sample_JSON_parse new_DiagnosticParser
           ''{\"message\":B,\"reason\":\"compiler-message\"}''))
        ''{\"message\":D,\"reason\":\"compiler-message\"}'')) = 2
   \<and> length (emitted (parseLine sample_JSON_parse new_DiagnosticParser
        ''{\"message\":B,\"reason\":\"compiler-message\"}'')) = 2
   \<and> length (emitted (parseLine sample_JSON_parse
        (snd (parseLine sample_JSON_parse new_DiagnosticParser
           ''{\"message\":B,\"reason\":\"compiler-message\"}''))
        ''{\"message\":D,\"reason\":\"compiler-message\"}'')) = 1
   \<and> map (diag_message \<circ> diagnostic)
        (emitted (parseLine sample_JSON_parse new_DiagnosticParser
           ''{\"message\":B,\"reason\":\"compiler-message\"}'')) =
      [''(1) E0308: mismatched types'' @ newline @ ''expected u32, found &str''
         @ newline @ ''  note: see the declaration'',
       ''(1) E0308: expected due to this'']
   \<and> map (diag_message \<circ> diagnostic)
        (emitted (parseLine sample_JSON_parse
           (snd (parseLine sample_JSON_parse new_DiagnosticParser
              ''{\"message\":B,\"reason\":\"compiler-message\"}''))
           ''{\"message\":D,\"reason\":\"compiler-message\"}'')) =
      [''(2) unused variable'']
   \<and> list_all (prefix ''(1) '' \<circ> diag_message \<circ> diagnostic)
        (emitted (parseLine sample_JSON_parse new_DiagnosticParser
           ''{\"message\":B,\"reason\":\"compiler-message\"}''))
   \<and> list_all (prefix ''(2) '' \<circ> diag_message \<circ> diagnostic)
        (emitted (parseLine sample_JSON_parse
           (snd (parseLine sample_JSON_parse new_DiagnosticParser
              ''{\"message\":B,\"reason\":\"compiler-message\"}''))
           ''{\"message\":D,\"reason\":\"compiler-message\"}''))"
proof -
  let ?lB = "''{\"message\":B,\"reason\":\"compiler-message\"}''"
  let ?lD = "''{\"message\":D,\"reason\":\"compiler-message\"}''"
  let ?r1 = "parseLine sample_JSON_parse new_DiagnosticParser ?lB"
  let ?r2 = "parseLine sample_JSON_parse (snd ?r1) ?lD"
  have h1: "sample_JSON_parse ?lB =
      Some \<lparr>cargo_message = Some message_B, reason = ''compiler-message''\<rparr>"
    by (simp add: sample_JSON_parse_def)
  have h2: "sample_JSON_parse ?lD =
      Some \<lparr>cargo_message = Some message_D, reason = ''compiler-message''\<rparr>"
    by (simp add: sample_JSON_parse_def)
  have h3: "?r2 = parseLine sample_JSON_parse (parseLines sample_JSON_parse (snd ?r1) []) ?lD"
    by simp
  have c: "complexMessageIndex (snd ?r1) = complexMessageIndex new_DiagnosticParser + 1
      \<and> length (emitted ?r1) =
          length (filter (\<lambda>s. is_primary s \<or> truthy (label s)) (spans message_B))
      \<and> complexMessageIndex (snd ?r1) < complexMessageIndex (snd ?r2)
      \<and> length (emitted ?r2) =
          length (filter (\<lambda>s. is_primary s \<or> truthy (label s)) (spans message_D))
      \<and> (\<forall>d \<in> set (emitted ?r1). prefix ''(1) '' (diag_message (diagnostic d)))
      \<and> (\<forall>d \<in> set (emitted ?r2). prefix ''(2) '' (diag_message (diagnostic d)))"
    using complex_message_numbering [where this = new_DiagnosticParser
        and J = sample_JSON_parse and ?l1.0 = ?lB and ?cm1.0 = message_B and ?l2.0 = ?lD
        and ?cm2.0 = message_D and ?r1.0 = ?r1 and ?r2.0 = ?r2 and between = "[]"]
      h1 h2 h3 isComplex_message_B isComplex_message_D
    by blast
  have n1: "length (filter (\<lambda>s. is_primary s \<or> truthy (label s)) (spans message_B)) = 2"
    by (simp add: message_B_def span_B1_def span_B2_def span_B3_def)
  have n2: "length (filter (\<lambda>s. is_primary s \<or> truthy (label s)) (spans message_D)) = 1"
    by (simp add: message_D_def span_D_def)
  have i2: "complexMessageIndex (snd ?r2) = 2"
    using h1 h2 isComplex_message_B isComplex_message_D
    by (simp add: parseLine_complex new_DiagnosticParser_def)
  have one: "number_toString (Suc 0) = ''1''" and two: "number_toString 2 = ''2''"
    by (simp_all add: number_toString.simps)
  have e1: "emitted ?r1 = parseComplexCompilerMessage \<lparr>complexMessageIndex = Suc 0\<rparr> message_B"
    using h1 isComplex_message_B
    by (simp add: parseLine_complex emitted_def new_DiagnosticParser_def)
  have e2: "emitted ?r2 = parseComplexCompilerMessage \<lparr>complexMessageIndex = 2\<rparr> message_D"
    using h1 h2 isComplex_message_B isComplex_message_D
    by (simp add: parseLine_complex emitted_def new_DiagnosticParser_def numeral_2_eq_2)
  have m1: "map (diag_message \<circ> diagnostic) (emitted ?r1) =
      [''(1) E0308: mismatched types'' @ newline @ ''expected u32, found &str''
         @ newline @ ''  note: see the declaration'',
       ''(1) E0308: expected due to this'']"
    unfolding e1
    by (simp add: parseComplexCompilerMessage_def complexSpanDiagnostic_def codePrefix_def
        message_B_def span_B1_def span_B2_def span_B3_def one repeat_def Let_def)
  have m2: "map (diag_message \<circ> diagnostic) (emitted ?r2) = [''(2) unused variable'']"
    unfolding e2
    by (simp add: parseComplexCompilerMessage_def complexSpanDiagnostic_def codePrefix_def
        message_D_def span_D_def two Let_def)
  have l1: "length (emitted ?r1) = 2" and l2: "length (emitted ?r2) = 1"
    using c n1 n2 by simp_all
  have p1: "list_all (prefix ''(1) '' \<circ> diag_message \<circ> diagnostic) (emitted ?r1)"
    and p2: "list_all (prefix ''(2) '' \<circ> diag_message \<circ> diagnostic) (emitted ?r2)"
    using c by (simp_all add: list_all_iff)
  have i1: "complexMessageIndex (snd ?r1) = 1"
    using c by (simp add: new_DiagnosticParser_def)
  show ?thesis
    using h1 h2 isComplex_message_B isComplex_message_D i1 i2 l1 l2 m1 m2 p1 p2
    by blast
qed

text \<open>
  Claim C8. For a compiler message with exactly one span that carries no expansion,
  \<open>parseLine\<close> returns exactly one diagnostic, and its range is the span's four
  positions, each less 1.
\<close>

theorem single_span_message_range:
  assumes "J line = Some cargoMessage"
    and "reason cargoMessage = ''compiler-message''"
    and "cargo_message cargoMessage = Some cm"
    and "spans cm = [s]"
    and "expansion s = None"
  shows "\<exists>d. parseLine J this line = (Inr [d], this)
    \<and> diag_range (diagnostic d) =
        \<lparr>startLine = line_start s - 1, startCharacter = column_start s - 1,
         endLine = line_end s - 1, endCharacter = column_end s - 1\<rparr>"
  using assms
  by (simp add: parseLine_def parseCompilerMessage_def isComplexCompilerMessage_def
      parseSimpleCompilerMessage_def spanRange_def)

theorem single_span_message_range_witness:
  "sample_JSON_parse ''{\"message\":A,\"reason\":\"compiler-message\"}'' =
      Some \<lparr>cargo_message = Some message_A, reason = ''compiler-message''\<rparr>
   \<and> spans message_A = [span_A]
   \<and> expansion span_A = None
   \<and> line_start span_A = 3 \<and> column_start span_A = 5
   \<and> line_end span_A = 3 \<and> column_end span_A = 12
   \<and> (\<exists>d. parseLine sample_JSON_parse new_DiagnosticParser
           ''{\"message\":A,\"reason\":\"compiler-message\"}'' = (Inr [d], new_DiagnosticParser)
        \<and> diag_range (diagnostic d) =
            \<lparr>startLine = 2, startCharacter = 4, endLine = 2, endCharacter = 11\<rparr>)"
proof -
  let ?lA = "''{\"message\":A,\"reason\":\"compiler-message\"}''"
  have h1: "sample_JSON_parse ?lA =
      Some \<lparr>cargo_message = Some message_A, reason = ''compiler-message''\<rparr>"
    by (simp add: sample_JSON_parse_def)
  have h2: "spans message_A = [span_A]"
    by (simp add: message_A_def)
  have h3: "expansion span_A = None"
    by (simp add: span_A_def)
  have h4: "line_start span_A = 3 \<and> column_start span_A = 5
      \<and> line_end span_A = 3 \<and> column_end span_A = 12"
    by (simp add: span_A_def)
  show ?thesis
    using single_span_message_range [where J = sample_JSON_parse and line = ?lA
        and cargoMessage = "\<lparr>cargo_message = Some message_A, reason = ''compiler-message''\<rparr>"
        and cm = message_A and s = span_A and this = new_DiagnosticParser]
      h1 h2 h3 h4
    by simp
qed

text \<open>
  Claim C9. \<open>parseLine\<close> returns the empty list, and leaves the parser as it is, for
  every event whose reason is not \<open>compiler-message\<close> and for every compiler message
  whose list of spans is empty.
\<close>

theorem no_diagnostics_without_compiler_message:
  "(J line = Some cargoMessage \<and> reason cargoMessage \<noteq> ''compiler-message''
      \<longrightarrow> parseLine J this line = (Inr [], this))
   \<and> (J line' = Some cargoMessage' \<and> reason cargoMessage' = ''compiler-message''
        \<and> cargo_message cargoMessage' = Some cm \<and> spans cm = []
      \<longrightarrow> parseLine J this line' = (Inr [], this))"
  by (simp add: parseLine_def parseCompilerMessage_def)

theorem no_diagnostics_without_compiler_message_witness:
  "sample_JSON_parse ''{\"reason\":\"compiler-artifact\"}'' =
      Some \<lparr>cargo_message = None, reason = ''compiler-artifact''\<rparr>
   \<and> ''compiler-artifact'' \<noteq> ''compiler-message''
   \<and> parseLine sample_JSON_parse \<lparr>complexMessageIndex = 4\<rparr>
        ''{\"reason\":\"compiler-artifact\"}'' = (Inr [], \<lparr>complexMessageIndex = 4\<rparr>)
   \<and> sample_JSON_parse ''{\"message\":C,\"reason\":\"compiler-message\"}'' =
      Some \<lparr>cargo_message = Some message_C, reason = ''compiler-message''\<rparr>
   \<and> spans message_C = []
   \<and> parseLine sample_JSON_parse \<lparr>complexMessageIndex = 4\<rparr>
        ''{\"message\":C,\"reason\":\"compiler-message\"}'' = (Inr [], \<lparr>complexMessageIndex = 4\<rparr>)"
proof -
  let ?l = "''{\"reason\":\"compiler-artifact\"}''"
  let ?l' = "''{\"message\":C,\"reason\":\"compiler-message\"}''"
  have h1: "sample_JSON_parse ?l = Some \<lparr>cargo_message = None, reason = ''compiler-artifact''\<rparr>"
    by (simp add: sample_JSON_parse_def)
  have h2: "sample_JSON_parse ?l' =
      Some \<lparr>cargo_message = Some message_C, reason = ''compiler-message''\<rparr>"
    by (simp add: sample_JSON_parse_def)
  have h3: "spans message_C = []"
    by (simp add: message_C_def)
  show ?thesis
    using no_diagnostics_without_compiler_message [where J = sample_JSON_parse and line = ?l
        and cargoMessage = "\<lparr>cargo_message = None, reason = ''compiler-artifact''\<rparr>"
        and line' = ?l'
        and cargoMessage' = "\<lparr>cargo_message = Some message_C, reason = ''compiler-message''\<rparr>"
        and cm = message_C and this = "\<lparr>complexMessageIndex = 4\<rparr>"]
      h1 h2 h3
    by simp
qed

text \<open>
  Claim C10. Where \<open>JSON.parse\<close> throws, \<open>parseLine\<close> throws the same \<open>SyntaxError\<close>
  (there is no handler around the call), and the counter is what it was.
\<close>

theorem invalid_json_throws:
  "JSON_parse line = None \<Longrightarrow> parseLine JSON_parse this line = (Inl SyntaxError, this)"
  by (simp add: parseLine_def)

theorem invalid_json_throws_witness:
  "sample_JSON_parse ''{\"reason\":'' = None
   \<and> parseLine sample_JSON_parse \<lparr>complexMessageIndex = 4\<rparr> ''{\"reason\":'' =
      (Inl SyntaxError, \<lparr>complexMessageIndex = 4\<rparr>)"
proof -
  have h: "sample_JSON_parse ''{\"reason\":'' = None"
    by (simp add: sample_JSON_parse_def)
  show ?thesis
    using invalid_json_throws [where JSON_parse = sample_JSON_parse
        and line = "''{\"reason\":''" and this = "\<lparr>complexMessageIndex = 4\<rparr>"] h
    by simp
qed

section \<open>Properties of the task coordinator\<close>

subsection \<open>The consistency of states reached through runCargo\<close>

text \<open>
  The callbacks and the reporting write to the sinks only; the fields of the manager
  that the policy reads are left as they are.
\<close>

lemma afterExecute_manager [simp]:
  "currentTask (afterExecute x secs (this::CargoTaskManager)) = currentTask this"
  "heap (afterExecute x secs this) = heap this"
  "signalled (afterExecute x secs this) = signalled this"
  "awaitingCwd (afterExecute x secs this) = awaitingCwd this"
  "awaitingKill (afterExecute x secs this) = awaitingKill this"
  by (simp_all add: afterExecute_def reportCompletion_def
      split: Settlement.splits option.splits)

lemma onStdoutLine_manager [simp]:
  "currentTask (onStdoutLine J en cwd line (this::CargoTaskManager)) = currentTask this"
  "heap (onStdoutLine J en cwd line this) = heap this"
  "signalled (onStdoutLine J en cwd line this) = signalled this"
  "awaitingCwd (onStdoutLine J en cwd line this) = awaitingCwd this"
  "awaitingKill (onStdoutLine J en cwd line this) = awaitingKill this"
  by (simp_all add: onStdoutLine_def split: prod.splits sum.splits)

lemma onStderrLine_manager [simp]:
  "currentTask (onStderrLine line (this::CargoTaskManager)) = currentTask this"
  "heap (onStderrLine line this) = heap this"
  "signalled (onStderrLine line this) = signalled this"
  "awaitingCwd (onStderrLine line this) = awaitingCwd this"
  "awaitingKill (onStderrLine line this) = awaitingKill this"
  by (simp_all add: onStderrLine_def)

lemma onLine_manager [simp]:
  "currentTask (onLine line (this::CargoTaskManager)) = currentTask this"
  "heap (onLine line this) = heap this"
  "signalled (onLine line this) = signalled this"
  "awaitingCwd (onLine line this) = awaitingCwd this"
  "awaitingKill (onLine line this) = awaitingKill this"
  by (simp_all add: onLine_def)

lemma onStart_manager [simp]:
  "currentTask (onStart command args (this::CargoTaskManager)) = currentTask this"
  "heap (onStart command args this) = heap this"
  "signalled (onStart command args this) = signalled this"
  "awaitingCwd (onStart command args this) = awaitingCwd this"
  "awaitingKill (onStart command args this) = awaitingKill this"
  by (simp_all add: onStart_def)

lemma consistent_pending:
  "consistent this \<Longrightarrow> c < length (heap this) \<Longrightarrow> pending (heap this ! c) \<Longrightarrow>
    currentTask this = Some c \<and> process (cargoTask (heap this ! c)) = Some c"
  unfolding consistent_def by blast

lemma consistent_current:
  "consistent this \<Longrightarrow> currentTask this = Some c \<Longrightarrow>
    c < length (heap this) \<and> pending (heap this ! c)"
  unfolding consistent_def by blast

lemma consistent_interrupted:
  "consistent this \<Longrightarrow> c < length (heap this) \<Longrightarrow>
    interrupted (cargoTask (heap this ! c)) \<Longrightarrow> c \<in> set (signalled this)"
  unfolding consistent_def by blast

lemma consistent_awaiter:
  "consistent this \<Longrightarrow> c < length (heap this) \<Longrightarrow> awaiter (heap this ! c) = ByRunCargo Detached"
  unfolding consistent_def by blast

lemma consistent_awaitingCwd:
  "consistent this \<Longrightarrow> r \<in> set (awaitingCwd this) \<Longrightarrow> snd (snd (snd r)) = Detached"
  unfolding consistent_def by blast

lemma consistent_awaitingKill:
  "consistent this \<Longrightarrow> w \<in> set (awaitingKill this) \<Longrightarrow> snd (snd (snd (snd w))) = Detached"
  unfolding consistent_def by blast

lemma consistentI:
  assumes "\<And>c. c < length (heap this) \<Longrightarrow> pending (heap this ! c) \<Longrightarrow>
      currentTask this = Some c \<and> process (cargoTask (heap this ! c)) = Some c"
    and "\<And>c. currentTask this = Some c \<Longrightarrow> c < length (heap this) \<and> pending (heap this ! c)"
    and "\<And>c. c < length (heap this) \<Longrightarrow> interrupted (cargoTask (heap this ! c)) \<Longrightarrow>
      c \<in> set (signalled this)"
    and "\<And>c. c < length (heap this) \<Longrightarrow> awaiter (heap this ! c) = ByRunCargo Detached"
    and "\<And>r. r \<in> set (awaitingCwd this) \<Longrightarrow> snd (snd (snd r)) = Detached"
    and "\<And>w. w \<in> set (awaitingKill this) \<Longrightarrow> snd (snd (snd (snd w))) = Detached"
  shows "consistent this"
  unfolding consistent_def using assms by blast

text \<open>Consistency depends on the heap, the reference, the signals and the waiting calls.\<close>

lemma consistent_same:
  assumes "consistent this"
    and "heap this' = heap this" and "currentTask this' = currentTask this"
    and "signalled this' = signalled this"
    and "set (awaitingCwd this') \<subseteq> set (awaitingCwd this) \<union> {r. snd (snd (snd r)) = Detached}"
    and "set (awaitingKill this') \<subseteq> set (awaitingKill this)
      \<union> {w. snd (snd (snd (snd w))) = Detached}"
  shows "consistent this'"
proof (rule consistentI)
  fix c
  show "c < length (heap this') \<Longrightarrow> pending (heap this' ! c) \<Longrightarrow>
      currentTask this' = Some c \<and> process (cargoTask (heap this' ! c)) = Some c"
    unfolding assms(2,3) by (rule consistent_pending [OF assms(1)])
  show "currentTask this' = Some c \<Longrightarrow> c < length (heap this') \<and> pending (heap this' ! c)"
    unfolding assms(2,3) by (rule consistent_current [OF assms(1)])
  show "c < length (heap this') \<Longrightarrow> interrupted (cargoTask (heap this' ! c)) \<Longrightarrow>
      c \<in> set (signalled this')"
    unfolding assms(2,4) by (rule consistent_interrupted [OF assms(1)])
  show "c < length (heap this') \<Longrightarrow> awaiter (heap this' ! c) = ByRunCargo Detached"
    unfolding assms(2) by (rule consistent_awaiter [OF assms(1)])
next
  fix r
  assume "r \<in> set (awaitingCwd this')"
  then show "snd (snd (snd r)) = Detached"
    using assms(5) consistent_awaitingCwd [OF assms(1)] by blast
next
  fix w
  assume "w \<in> set (awaitingKill this')"
  then show "snd (snd (snd (snd w))) = Detached"
    using assms(6) consistent_awaitingKill [OF assms(1)] by blast
qed

lemma consistent_sinks:
  "consistent this \<Longrightarrow> consistent (afterExecute x secs this)"
  "consistent this \<Longrightarrow> consistent (onStdoutLine J en cwd line this)"
  "consistent this \<Longrightarrow> consistent (onStderrLine line this)"
  "consistent this \<Longrightarrow> consistent (onStart command args this)"
  "consistent this \<Longrightarrow> consistent (this\<lparr>errorMessages := em\<rparr>)"
  "consistent this \<Longrightarrow> consistent (this\<lparr>diagnostics := ds\<rparr>)"
  by (erule consistent_same; simp)+

lemma consistent_new: "consistent (new_CargoTaskManager enabled)"
  by (simp add: consistent_def new_CargoTaskManager_def)


lemma killTask_current:
  assumes "consistent this" and "currentTask this = Some c"
  shows "killTask c this =
    (if interrupted (cargoTask (heap this ! c)) then (this, NeverResolved)
     else (this\<lparr>heap := (heap this)[c := (heap this ! c)
                  \<lparr>cargoTask := (cargoTask (heap this ! c))\<lparr>interrupted := True\<rparr>\<rparr>],
                signalled := signalled this @ [c]\<rparr>, ResolvedByTreeKill c))"
proof -
  have "c < length (heap this)" "process (cargoTask (heap this ! c)) = Some c"
    using consistent_current [OF assms] consistent_pending [OF assms(1)] by simp_all
  then show ?thesis
    by (simp add: killTask_def kill_def)
qed

lemma consistent_killTask:
  assumes "consistent this" and "currentTask this = Some c"
  shows "consistent (fst (killTask c this))"
proof (cases "interrupted (cargoTask (heap this ! c))")
  case True
  then show ?thesis using assms by (simp add: killTask_current)
next
  case False
  define task' where "task' = (heap this ! c)
      \<lparr>cargoTask := (cargoTask (heap this ! c))\<lparr>interrupted := True\<rparr>\<rparr>"
  define this' where "this' = this\<lparr>heap := (heap this)[c := task'],
      signalled := signalled this @ [c]\<rparr>"
  have k: "fst (killTask c this) = this'"
    using assms False by (simp add: killTask_current this'_def task'_def)
  have c: "c < length (heap this)" and pc: "pending (heap this ! c)"
    using consistent_current [OF assms] by simp_all
  have proc: "process (cargoTask (heap this ! c)) = Some c"
    using consistent_pending [OF assms(1) c pc] by simp
  have h: "heap this' = (heap this)[c := task']" "currentTask this' = currentTask this"
    "signalled this' = signalled this @ [c]" "awaitingCwd this' = awaitingCwd this"
    "awaitingKill this' = awaitingKill this"
    by (simp_all add: this'_def)
  have t: "pending task' = pending (heap this ! c)"
    "process (cargoTask task') = process (cargoTask (heap this ! c))"
    "awaiter task' = awaiter (heap this ! c)"
    by (simp_all add: task'_def)
  have "consistent this'"
  proof (rule consistentI)
    fix i
    assume i: "i < length (heap this')" and p: "pending (heap this' ! i)"
    show "currentTask this' = Some i \<and> process (cargoTask (heap this' ! i)) = Some i"
    proof (cases "i = c")
      case True
      then show ?thesis using assms(2) c proc by (simp add: h t)
    next
      case False
      then have "i < length (heap this)" "pending (heap this ! i)"
        using i p by (simp_all add: h)
      from consistent_pending [OF assms(1) this] False show ?thesis
        by (simp add: h)
    qed
  next
    fix i
    assume "currentTask this' = Some i"
    then show "i < length (heap this') \<and> pending (heap this' ! i)"
      using assms c pc by (simp add: h t)
  next
    fix i
    assume i: "i < length (heap this')" and p: "interrupted (cargoTask (heap this' ! i))"
    show "i \<in> set (signalled this')"
    proof (cases "i = c")
      case True
      then show ?thesis by (simp add: h)
    next
      case False
      then have "i < length (heap this)" "interrupted (cargoTask (heap this ! i))"
        using i p by (simp_all add: h)
      from consistent_interrupted [OF assms(1) this] show ?thesis
        by (simp add: h)
    qed
  next
    fix i
    assume i: "i < length (heap this')"
    then have "i < length (heap this)" by (simp add: h)
    from consistent_awaiter [OF assms(1) this] i
    show "awaiter (heap this' ! i) = ByRunCargo Detached"
      by (cases "i = c") (simp_all add: h t)
  next
    fix r
    assume "r \<in> set (awaitingCwd this')"
    then show "snd (snd (snd r)) = Detached"
      using consistent_awaitingCwd [OF assms(1)] by (simp add: h)
  next
    fix w
    assume "w \<in> set (awaitingKill this')"
    then show "snd (snd (snd (snd w))) = Detached"
      using consistent_awaitingKill [OF assms(1)] by (simp add: h)
  qed
  then show ?thesis by (simp add: k)
qed

lemma consistent_spawnTask:
  assumes "consistent this" and "currentTask this = None"
  shows "consistent (spawnTask av cwd (ByRunCargo Detached) this)"
    (is "consistent ?this'")
proof (rule consistentI)
  have idle: "\<not> pending (heap this ! i)" if "i < length (heap this)" for i
    using consistent_pending [OF assms(1) that] assms(2) by auto
  have h: "heap ?this' = heap this
      @ [\<lparr>cargoTask = new_CargoTask\<lparr>process := Some (length (heap this))\<rparr>,
          argv = av, taskCwd = cwd, pending = True, awaiter = ByRunCargo Detached\<rparr>]"
    "currentTask ?this' = Some (length (heap this))" "signalled ?this' = signalled this"
    "awaitingCwd ?this' = awaitingCwd this" "awaitingKill ?this' = awaitingKill this"
    by (simp_all add: spawnTask_def)
  fix i
  {
    assume i: "i < length (heap ?this')" and p: "pending (heap ?this' ! i)"
    have "i = length (heap this)"
    proof (rule ccontr)
      assume "i \<noteq> length (heap this)"
      then have "i < length (heap this)" using i by (simp add: h)
      then show False using p idle by (simp add: h nth_append)
    qed
    then show "currentTask ?this' = Some i \<and> process (cargoTask (heap ?this' ! i)) = Some i"
      by (simp add: h new_CargoTask_def)
  }
  {
    assume "currentTask ?this' = Some i"
    then show "i < length (heap ?this') \<and> pending (heap ?this' ! i)"
      by (auto simp: h)
  }
  {
    assume i: "i < length (heap ?this')" and p: "interrupted (cargoTask (heap ?this' ! i))"
    have "i < length (heap this)"
      using i p by (cases "i = length (heap this)") (simp_all add: h new_CargoTask_def)
    then show "i \<in> set (signalled ?this')"
      using p consistent_interrupted [OF assms(1), of i] by (simp add: h nth_append)
  }
  {
    assume i: "i < length (heap ?this')"
    show "awaiter (heap ?this' ! i) = ByRunCargo Detached"
    proof (cases "i = length (heap this)")
      case True
      then show ?thesis by (simp add: h)
    next
      case False
      then have "i < length (heap this)" using i by (simp add: h)
      from consistent_awaiter [OF assms(1) this] this show ?thesis
        by (simp add: h nth_append)
    qed
  }
next
  fix r
  assume "r \<in> set (awaitingCwd (spawnTask av cwd (ByRunCargo Detached) this))"
  then show "snd (snd (snd r)) = Detached"
    using consistent_awaitingCwd [OF assms(1)] by (simp add: spawnTask_def)
next
  fix w
  assume "w \<in> set (awaitingKill (spawnTask av cwd (ByRunCargo Detached) this))"
  then show "snd (snd (snd (snd w))) = Detached"
    using consistent_awaitingKill [OF assms(1)] by (simp add: spawnTask_def)
qed

lemma consistent_runCargo_resume:
  assumes "consistent this"
  shows "consistent (runCargo_resume (command, args, force, Detached) cwd this)"
proof (cases "currentTask this")
  case None
  have "consistent (onStart command (messageFormatArgs command args) (this\<lparr>diagnostics := []\<rparr>))"
    "currentTask (onStart command (messageFormatArgs command args) (this\<lparr>diagnostics := []\<rparr>)) = None"
    using assms None by (simp_all add: consistent_sinks)
  from consistent_spawnTask [OF this]
  show ?thesis
    using None by (simp add: runCargo_resume_def Let_def)
next
  case (Some c)
  show ?thesis
  proof (cases force)
    case False
    then show ?thesis using Some assms by (simp add: runCargo_resume_def runCargo_return_def)
  next
    case True
    have k: "consistent (fst (killTask c this))"
      by (rule consistent_killTask [OF assms Some])
    have "consistent ((fst (killTask c this))\<lparr>awaitingKill :=
        awaitingKill (fst (killTask c this)) @ [(c, (command, args, force, Detached))]\<rparr>)"
      by (rule consistent_same [OF k]) auto
    then show ?thesis
      using Some True k
      by (cases "killTask c this")
         (simp add: runCargo_resume_def split: KillPromise.splits)
  qed
qed

lemma consistent_settle:
  assumes "consistent this" and "c < length (heap this)" and "pending (heap this ! c)"
    and "interrupted (fst outcome) = interrupted (cargoTask (heap this ! c))"
  shows "consistent (settle c outcome secs this)"
proof -
  define this' where "this' = this\<lparr>heap := (heap this)[c := (heap this ! c)
      \<lparr>cargoTask := fst outcome, pending := False\<rparr>], currentTask := None\<rparr>"
  have cur: "currentTask this = Some c"
    using consistent_pending [OF assms(1-3)] by simp
  have aw: "awaiter (heap this ! c) = ByRunCargo Detached"
    by (rule consistent_awaiter [OF assms(1,2)])
  have idle: "i = c" if "i < length (heap this)" "pending (heap this ! i)" for i
    using consistent_pending [OF assms(1) that] cur by simp
  have h: "heap this' = (heap this)[c := (heap this ! c)\<lparr>cargoTask := fst outcome, pending := False\<rparr>]"
    "currentTask this' = None" "signalled this' = signalled this"
    "awaitingCwd this' = awaitingCwd this" "awaitingKill this' = awaitingKill this"
    by (simp_all add: this'_def)
  have "consistent this'"
  proof (rule consistentI)
    fix i
    assume i: "i < length (heap this')" and p: "pending (heap this' ! i)"
    have "i \<noteq> c" using i p by (auto simp: h)
    moreover from this have "pending (heap this ! i)" using i p by (simp add: h)
    ultimately have False using idle i by (simp add: h)
    then show "currentTask this' = Some i \<and> process (cargoTask (heap this' ! i)) = Some i" ..
  next
    fix i
    assume "currentTask this' = Some i"
    then show "i < length (heap this') \<and> pending (heap this' ! i)"
      by (simp add: h)
  next
    fix i
    assume i: "i < length (heap this')" and p: "interrupted (cargoTask (heap this' ! i))"
    have "i < length (heap this)" "interrupted (cargoTask (heap this ! i))"
      using i p assms(4) by (cases "i = c"; simp add: h)+
    from consistent_interrupted [OF assms(1) this] show "i \<in> set (signalled this')"
      by (simp add: h)
  next
    fix i
    assume i: "i < length (heap this')"
    then have "i < length (heap this)" by (simp add: h)
    from consistent_awaiter [OF assms(1) this] i
    show "awaiter (heap this' ! i) = ByRunCargo Detached"
      by (cases "i = c") (simp_all add: h)
  next
    fix r
    assume "r \<in> set (awaitingCwd this')"
    then show "snd (snd (snd r)) = Detached"
      using consistent_awaitingCwd [OF assms(1)] by (simp add: h)
  next
    fix w
    assume "w \<in> set (awaitingKill this')"
    then show "snd (snd (snd (snd w))) = Detached"
      using consistent_awaitingKill [OF assms(1)] by (simp add: h)
  qed
  moreover have "settle c outcome secs this = afterExecute (snd outcome) secs this'"
    by (simp add: settle_def runCargo_settled_def runCargo_return_def this'_def aw Let_def)
  ultimately show ?thesis by (simp add: consistent_sinks)
qed

lemma consistent_killed:
  assumes "consistent this" and "\<forall>r \<in> set rs. snd (snd (snd r)) = Detached"
  shows "consistent (foldl (\<lambda>s request. runCargo_killed request s) this rs)"
  using assms
proof (induction rs arbitrary: this)
  case Nil
  then show ?case by simp
next
  case (Cons r rs)
  obtain command args force caller where r: "r = (command, args, force, caller)"
    by (cases r)
  with Cons.prems(2) have d: "caller = Detached" by simp
  have "consistent (runCargo_killed r this)"
    unfolding r d runCargo_killed_def
    by (simp add: runCargo_return_def) (rule consistent_same [OF Cons.prems(1)], auto)
  then show ?case using Cons by simp
qed

lemma consistent_step:
  assumes "consistent this" and "viaRunCargo e"
  shows "consistent (step J this e)"
proof (cases e)
  case (RunCargo command args force)
  have "consistent (this\<lparr>awaitingCwd := awaitingCwd this @ [(command, args, force, Detached)]\<rparr>)"
    by (rule consistent_same [OF assms(1)]) auto
  with RunCargo show ?thesis by simp
next
  case (InvokeCargoNew projectName isBin cwd)
  then show ?thesis using assms(2) by simp
next
  case (InvokeCargoInit crateType name cwd)
  then show ?thesis using assms(2) by simp
next
  case (CwdSettled k r)
  show ?thesis
  proof (cases "k < length (awaitingCwd this)")
    case False
    then show ?thesis using CwdSettled assms(1) by simp
  next
    case True
    let ?this1 = "this\<lparr>awaitingCwd := take k (awaitingCwd this) @ drop (Suc k) (awaitingCwd this)\<rparr>"
    obtain command args force caller
      where r: "awaitingCwd this ! k = (command, args, force, caller)"
      by (cases "awaitingCwd this ! k")
    have "awaitingCwd this ! k \<in> set (awaitingCwd this)"
      using True by simp
    from consistent_awaitingCwd [OF assms(1) this] r have d: "caller = Detached"
      by simp
    have c1: "consistent ?this1"
    proof (rule consistent_same [OF assms(1)])
      show "set (awaitingCwd ?this1)
          \<subseteq> set (awaitingCwd this) \<union> {r. snd (snd (snd r)) = Detached}"
        using set_take_subset [of k "awaitingCwd this"]
          set_drop_subset [of "Suc k" "awaitingCwd this"] by auto
    qed simp_all
    show ?thesis
    proof (cases r)
      case (Inl msg)
      have "consistent (?this1\<lparr>errorMessages := errorMessages ?this1 @ [msg]\<rparr>)"
        by (rule consistent_sinks(5) [OF c1])
      then show ?thesis
        using CwdSettled True Inl r d by (simp add: Let_def runCargo_return_def)
    next
      case (Inr cwd)
      have "consistent (runCargo_resume (command, args, force, Detached) cwd ?this1)"
        by (rule consistent_runCargo_resume [OF c1])
      then show ?thesis
        using CwdSettled True Inr r d by (simp add: Let_def)
    qed
  qed
next
  case StopTask
  then show ?thesis
    using assms(1) consistent_killTask by (simp split: option.splits)
next
  case (TreeKillDone c)
  have "consistent (this\<lparr>awaitingKill := filter (\<lambda>w. fst w \<noteq> c) (awaitingKill this)\<rparr>)"
    by (rule consistent_same [OF assms(1)]) auto
  moreover have "\<forall>r \<in> set (map snd (filter (\<lambda>w. fst w = c) (awaitingKill this))).
      snd (snd (snd r)) = Detached"
    using consistent_awaitingKill [OF assms(1)] by auto
  ultimately show ?thesis
    using TreeKillDone by (simp add: consistent_killed)
next
  case (Stdout c line)
  then show ?thesis
    using assms(1) consistent_awaiter [OF assms(1), of c] by (simp add: consistent_sinks)
next
  case (Stderr c line)
  then show ?thesis
    using assms(1) consistent_awaiter [OF assms(1), of c] by (simp add: consistent_sinks)
next
  case (ProcessFailed c err secs)
  then show ?thesis
    using assms(1) by (simp add: consistent_settle onProcessError_def)
next
  case (ProcessExited c exitCode secs)
  then show ?thesis
    using assms(1) by (simp add: consistent_settle onProcessExit_def)
qed

lemma consistent_run:
  "consistent this \<Longrightarrow> \<forall>e \<in> set events. viaRunCargo e \<Longrightarrow> consistent (run J this events)"
  unfolding run_def
  by (induction events arbitrary: this) (simp_all add: consistent_step)


subsection \<open>Single flight and forced restart among calls of runCargo\<close>

text \<open>
  As long as every task is started by \<open>runCargo\<close>, the only event that makes the heap
  longer, that is, spawns a child, is a call of \<open>runCargo\<close> that comes back from \<open>cwd()\<close>
  and finds no current task.
\<close>

lemma killTask_fields:
  "currentTask (fst (killTask c this)) = currentTask this"
  "length (heap (fst (killTask c this))) = length (heap this)"
  by (simp_all add: killTask_def kill_def split: if_splits)

lemma killed_fields:
  assumes "\<forall>r \<in> set rs. snd (snd (snd r)) = Detached"
  shows "heap (foldl (\<lambda>s request. runCargo_killed request s) this rs) = heap this
    \<and> currentTask (foldl (\<lambda>s request. runCargo_killed request s) this rs) = currentTask this"
  using assms
proof (induction rs arbitrary: this)
  case Nil
  then show ?case by simp
next
  case (Cons r rs)
  obtain command args force caller where r: "r = (command, args, force, caller)"
    by (cases r)
  with Cons.prems have d: "caller = Detached" by simp
  have "heap (runCargo_killed r this) = heap this"
    "currentTask (runCargo_killed r this) = currentTask this"
    unfolding r d by (simp_all add: runCargo_killed_def runCargo_return_def)
  then show ?case using Cons by simp
qed

lemma step_starts_process:
  assumes "consistent this" and "viaRunCargo e"
    and "length (heap (step J this e)) \<noteq> length (heap this)"
  shows "currentTask this = None
    \<and> length (heap (step J this e)) = Suc (length (heap this))
    \<and> currentTask (step J this e) = Some (length (heap this))"
proof (cases e)
  case (RunCargo command args force)
  then show ?thesis using assms(3) by simp
next
  case (InvokeCargoNew projectName isBin cwd)
  then show ?thesis using assms(2) by simp
next
  case (InvokeCargoInit crateType name cwd)
  then show ?thesis using assms(2) by simp
next
  case (CwdSettled k r)
  show ?thesis
  proof (cases "k < length (awaitingCwd this)")
    case False
    then show ?thesis using assms(3) CwdSettled by simp
  next
    case True
    let ?this1 = "this\<lparr>awaitingCwd := take k (awaitingCwd this) @ drop (Suc k) (awaitingCwd this)\<rparr>"
    obtain command args force caller
      where r: "awaitingCwd this ! k = (command, args, force, caller)"
      by (cases "awaitingCwd this ! k")
    have "awaitingCwd this ! k \<in> set (awaitingCwd this)"
      using True by simp
    from consistent_awaitingCwd [OF assms(1) this] r have d: "caller = Detached"
      by simp
    show ?thesis
    proof (cases r)
      case (Inl msg)
      then show ?thesis
        using assms(3) CwdSettled True r d by (simp add: Let_def runCargo_return_def)
    next
      case (Inr cwd)
      then have s: "step J this e = runCargo_resume (command, args, force, Detached) cwd ?this1"
        using CwdSettled True r d by (simp add: Let_def)
      show ?thesis
      proof (cases "currentTask this")
        case None
        then show ?thesis
          unfolding s by (simp add: runCargo_resume_def spawnTask_def Let_def)
      next
        case (Some c)
        have "length (heap (runCargo_resume (command, args, force, Detached) cwd ?this1))
            = length (heap this)"
          using Some
          by (cases "killTask c ?this1")
             (auto simp: runCargo_resume_def runCargo_return_def killTask_def kill_def
                split: KillPromise.splits if_splits)
        then show ?thesis using assms(3) s by simp
      qed
    qed
  qed
next
  case StopTask
  then show ?thesis
    using assms(3) by (simp add: killTask_fields split: option.splits)
next
  case (TreeKillDone c)
  have "\<forall>r \<in> set (map snd (filter (\<lambda>w. fst w = c) (awaitingKill this))).
      snd (snd (snd r)) = Detached"
    using consistent_awaitingKill [OF assms(1)] by auto
  from killed_fields [OF this] TreeKillDone assms(3) show ?thesis
    by simp
next
  case (Stdout c line)
  then show ?thesis using assms(3) by (simp add: onLine_def split: if_splits Awaiter.splits)
next
  case (Stderr c line)
  then show ?thesis using assms(3) by (simp add: onLine_def split: if_splits Awaiter.splits)
next
  case (ProcessFailed c err secs)
  then show ?thesis
    using assms(3) consistent_awaiter [OF assms(1), of c]
    by (simp add: settle_def runCargo_settled_def runCargo_return_def Let_def split: if_splits)
next
  case (ProcessExited c exitCode secs)
  then show ?thesis
    using assms(3) consistent_awaiter [OF assms(1), of c]
    by (simp add: settle_def runCargo_settled_def runCargo_return_def Let_def split: if_splits)
qed

lemma runCargo_resume_forced:
  assumes "consistent this" and "currentTask this = Some c"
  shows "cargoTask (heap (runCargo_resume (command, args, True, Detached) cwd this) ! c) =
      fst (kill (cargoTask (heap this ! c)))
    \<and> interrupted (cargoTask (heap (runCargo_resume (command, args, True, Detached) cwd this) ! c))
    \<and> c \<in> set (signalled (runCargo_resume (command, args, True, Detached) cwd this))
    \<and> length (heap (runCargo_resume (command, args, True, Detached) cwd this)) = length (heap this)
    \<and> currentTask (runCargo_resume (command, args, True, Detached) cwd this) = Some c"
proof -
  have c: "c < length (heap this)" and pc: "pending (heap this ! c)"
    using consistent_current [OF assms] by simp_all
  have proc: "process (cargoTask (heap this ! c)) = Some c"
    using consistent_pending [OF assms(1) c pc] by simp
  show ?thesis
  proof (cases "interrupted (cargoTask (heap this ! c))")
    case True
    then have "runCargo_resume (command, args, True, Detached) cwd this = this"
      using assms by (simp add: runCargo_resume_def killTask_current)
    moreover have "c \<in> set (signalled this)"
      using consistent_interrupted [OF assms(1) c True] .
    moreover have "fst (kill (cargoTask (heap this ! c))) = cargoTask (heap this ! c)"
      using True by (simp add: kill_def)
    ultimately show ?thesis using True assms(2) by simp
  next
    case False
    then have "runCargo_resume (command, args, True, Detached) cwd this =
        this\<lparr>heap := (heap this)[c := (heap this ! c)
                 \<lparr>cargoTask := (cargoTask (heap this ! c))\<lparr>interrupted := True\<rparr>\<rparr>],
             signalled := signalled this @ [c],
             awaitingKill := awaitingKill this @ [(c, (command, args, True, Detached))]\<rparr>"
      using assms by (simp add: runCargo_resume_def killTask_current)
    moreover have "fst (kill (cargoTask (heap this ! c))) =
        (cargoTask (heap this ! c))\<lparr>interrupted := True\<rparr>"
      using False proc by (simp add: kill_def)
    ultimately show ?thesis using c assms(2) by simp
  qed
qed

text \<open>
  The policy of \<open>runCargo\<close>, in the states the manager reaches when no project is created
  or initialised. While a task is current, a call without \<open>force\<close> changes nothing. A
  call with \<open>force\<close> applies \<open>kill()\<close> to the current task and starts no process itself.
  And an event starts a process only when no task is current and the promise of every
  earlier task has settled.
\<close>

lemma runCargo_single_flight:
  assumes "this = run J (new_CargoTaskManager enabled) events"
    and "\<forall>e \<in> set events. viaRunCargo e"
  shows "currentTask this = Some c \<Longrightarrow>
      runCargo_resume (command, args, False, Detached) cwd this = this"
    and "currentTask this = Some c \<Longrightarrow>
      cargoTask (heap (runCargo_resume (command, args, True, Detached) cwd this) ! c) =
          fst (kill (cargoTask (heap this ! c)))
      \<and> c \<in> set (signalled (runCargo_resume (command, args, True, Detached) cwd this))
      \<and> length (heap (runCargo_resume (command, args, True, Detached) cwd this))
          = length (heap this)"
    and "viaRunCargo e \<Longrightarrow> length (heap (step J this e)) \<noteq> length (heap this) \<Longrightarrow>
      currentTask this = None
      \<and> (\<forall>c' < length (heap this). \<not> pending (heap this ! c'))
      \<and> length (heap (step J this e)) = Suc (length (heap this))"
proof -
  have inv: "consistent this"
    unfolding assms(1) by (rule consistent_run [OF consistent_new assms(2)])
  {
    assume "currentTask this = Some c"
    then show "runCargo_resume (command, args, False, Detached) cwd this = this"
      by (simp add: runCargo_resume_def runCargo_return_def)
  }
  {
    assume "currentTask this = Some c"
    from runCargo_resume_forced [OF inv this, of command args cwd]
    show "cargoTask (heap (runCargo_resume (command, args, True, Detached) cwd this) ! c) =
          fst (kill (cargoTask (heap this ! c)))
      \<and> c \<in> set (signalled (runCargo_resume (command, args, True, Detached) cwd this))
      \<and> length (heap (runCargo_resume (command, args, True, Detached) cwd this))
          = length (heap this)"
      by blast
  }
  {
    assume "viaRunCargo e" and "length (heap (step J this e)) \<noteq> length (heap this)"
    from step_starts_process [OF inv this]
    have s: "currentTask this = None"
      "length (heap (step J this e)) = Suc (length (heap this))"
      by blast+
    have "\<not> pending (heap this ! c')" if "c' < length (heap this)" for c'
      using consistent_pending [OF inv that] s(1) by auto
    with s show "currentTask this = None
      \<and> (\<forall>c' < length (heap this). \<not> pending (heap this ! c'))
      \<and> length (heap (step J this e)) = Suc (length (heap this))"
      by blast
  }
qed

text \<open>
  A forced call that finds the current task already interrupted calls \<open>kill()\<close> on it
  again and waits for a promise that nothing resolves: the call is in neither list of
  waiting calls, and the state is as it was.
\<close>

lemma forced_again_never_resumes:
  assumes "consistent this" and "currentTask this = Some c"
    and "interrupted (cargoTask (heap this ! c))"
  shows "runCargo_resume (command, args, True, Detached) cwd this = this"
  using assms by (simp add: runCargo_resume_def killTask_current)

lemmas run_simps =
  run_def new_CargoTaskManager_def runCargo_resume_def runCargo_return_def
  runCargo_killed_def runCargo_settled_def ownTask_settled_def spawnTask_def
  startOwnTask_def settle_def killTask_def kill_def new_CargoTask_def onStart_def
  onProcessExit_def onProcessError_def afterExecute_def reportCompletion_def
  messageFormatArgs_def Let_def

text \<open>The restart comes about when the build exits before the re-issued call resumes.\<close>

lemma forced_restart_after_exit_example:
  "map argv (heap (run sample_JSON_parse (new_CargoTaskManager True) restartAfterExitRun)) =
     [[''build'', ''--message-format'', ''json''], [''test'', ''--message-format'', ''json'']]
   \<and> map pending (heap (run sample_JSON_parse (new_CargoTaskManager True) restartAfterExitRun)) =
     [False, True]
   \<and> currentTask (run sample_JSON_parse (new_CargoTaskManager True) restartAfterExitRun) = Some 1"
  by (simp add: restartAfterExitRun_def run_simps)

text \<open>
  Claim C2, where the code departs from it. A forced call awaits the promise of
  \<open>kill()\<close>, which \<open>tree-kill\<close> resolves once the signal is sent, not the \<open>exit\<close> event of
  the child; the re-issued call makes the test of \<open>currentTask\<close> afresh. In
  \<open>restartRun\<close> it still finds the killed build current, calls \<open>kill()\<close> on it once more
  and waits for a promise that is never resolved: when the build has exited, the build
  is the only process that was ever started, no task is current and no call is waiting,
  so the forced test never begins. And \<open>invokeCargoNew\<close> assigns \<open>currentTask\<close> without
  the test and clears it when its own task has ended: in \<open>newProjectRun\<close> the call of
  \<open>runCargo\<close> that follows, forced or not, finds no current task and starts the test
  while the build is still running, with no signal sent to it.
\<close>

theorem forced_restart_defects:
  "map argv (heap (run sample_JSON_parse (new_CargoTaskManager True) restartRun)) =
     [[''build'', ''--message-format'', ''json'']]
   \<and> map pending (heap (run sample_JSON_parse (new_CargoTaskManager True) restartRun)) = [False]
   \<and> signalled (run sample_JSON_parse (new_CargoTaskManager True) restartRun) = [0]
   \<and> currentTask (run sample_JSON_parse (new_CargoTaskManager True) restartRun) = None
   \<and> awaitingCwd (run sample_JSON_parse (new_CargoTaskManager True) restartRun) = []
   \<and> awaitingKill (run sample_JSON_parse (new_CargoTaskManager True) restartRun) = []
   \<and> map argv (heap (run sample_JSON_parse (new_CargoTaskManager True) (newProjectRun force))) =
     [[''build'', ''--message-format'', ''json''], [''new'', ''demo'', ''--bin''],
      [''test'', ''--message-format'', ''json'']]
   \<and> map pending (heap (run sample_JSON_parse (new_CargoTaskManager True) (newProjectRun force))) =
     [True, False, True]
   \<and> map (interrupted \<circ> cargoTask)
        (heap (run sample_JSON_parse (new_CargoTaskManager True) (newProjectRun force))) =
     [False, False, False]
   \<and> signalled (run sample_JSON_parse (new_CargoTaskManager True) (newProjectRun force)) = []
   \<and> currentTask (run sample_JSON_parse (new_CargoTaskManager True) (newProjectRun force)) =
     Some 2"
proof (intro conjI)
  let ?lost = "run sample_JSON_parse (new_CargoTaskManager True) restartRun"
  let ?beside = "run sample_JSON_parse (new_CargoTaskManager True) (newProjectRun force)"
  show "map argv (heap ?lost) = [[''build'', ''--message-format'', ''json'']]"
    by (simp add: restartRun_def run_simps)
  show "map pending (heap ?lost) = [False]"
    by (simp add: restartRun_def run_simps)
  show "signalled ?lost = [0]"
    by (simp add: restartRun_def run_simps)
  show "currentTask ?lost = None"
    by (simp add: restartRun_def run_simps)
  show "awaitingCwd ?lost = []"
    by (simp add: restartRun_def run_simps)
  show "awaitingKill ?lost = []"
    by (simp add: restartRun_def run_simps)
  show "map argv (heap ?beside) =
     [[''build'', ''--message-format'', ''json''], [''new'', ''demo'', ''--bin''],
      [''test'', ''--message-format'', ''json'']]"
    by (simp add: newProjectRun_def run_simps)
  show "map pending (heap ?beside) = [True, False, True]"
    by (simp add: newProjectRun_def run_simps)
  show "map (interrupted \<circ> cargoTask) (heap ?beside) = [False, False, False]"
    by (simp add: newProjectRun_def run_simps)
  show "signalled ?beside = []"
    by (simp add: newProjectRun_def run_simps)
  show "currentTask ?beside = Some 2"
    by (simp add: newProjectRun_def run_simps)
qed


subsection \<open>Reporting a failed spawn\<close>

lemma spawnENOENT_message: "error_message (spawnENOENT path) \<noteq> ''ENOENT''"
  by (simp add: spawnENOENT_def)

lemma afterExecute_other_error:
  "error_message e \<noteq> ''ENOENT'' \<Longrightarrow> afterExecute (Rejected (Some e)) seconds s = s"
  by (simp add: afterExecute_def)

lemma afterExecute_ENOENT:
  "afterExecute (Rejected (Some (ProcessError ''ENOENT'' c))) seconds s =
     reportCompletion None seconds
       (s\<lparr>informationMessages := informationMessages s @ [cargoNotAvailable]\<rparr>)"
  by (simp add: afterExecute_def)

text \<open>
  Claim C3, where the code departs from it. The \<open>catch\<close> blocks of
  \<open>OutputChannelCargoTask.execute\<close> and of \<open>CargoTaskManager.runCargo\<close> compare the
  \<open>message\<close> of the error with \<open>ENOENT\<close>, which is its \<open>code\<close>; the message of the error
  of a failed launch is \<open>spawn\<close>, the path, \<open>ENOENT\<close>. So for every path both methods
  return before \<open>showInformationMessage\<close>: nothing is shown. The channel holds the
  \<open>Started cargo ...\<close> line that \<open>onStart\<close> has written before the spawn, and the manager
  has cleared its reference to the task.
\<close>

theorem spawn_failure_not_reported:
  "informationMessages (execute_settled (Rejected (Some (spawnENOENT path))) seconds
       (execute_begin command args child this)) = informationMessages this
   \<and> channel (execute_settled (Rejected (Some (spawnENOENT path))) seconds
       (execute_begin command args child this)) =
       ''Started cargo '' @ command @ '' ''
         @ join (messageFormatArgs command args) '' '' @ newline
   \<and> (currentTask manager = None \<longrightarrow>
        informationMessages
          (step J (runCargo_resume (command, args, force, Detached) cwd manager)
             (ProcessFailed (length (heap manager)) (spawnENOENT path) seconds)) =
          informationMessages manager
        \<and> channel
            (step J (runCargo_resume (command, args, force, Detached) cwd manager)
               (ProcessFailed (length (heap manager)) (spawnENOENT path) seconds)) =
            ''Started cargo '' @ command @ '' ''
              @ join (messageFormatArgs command args) '' '' @ newline
        \<and> currentTask
            (step J (runCargo_resume (command, args, force, Detached) cwd manager)
               (ProcessFailed (length (heap manager)) (spawnENOENT path) seconds)) = None)"
proof (intro conjI impI)
  show "informationMessages (execute_settled (Rejected (Some (spawnENOENT path))) seconds
       (execute_begin command args child this)) = informationMessages this"
    by (simp add: execute_settled_def execute_begin_def
        afterExecute_other_error [OF spawnENOENT_message] onStart_def)
  show "channel (execute_settled (Rejected (Some (spawnENOENT path))) seconds
       (execute_begin command args child this)) =
       ''Started cargo '' @ command @ '' ''
         @ join (messageFormatArgs command args) '' '' @ newline"
    by (simp add: execute_settled_def execute_begin_def
        afterExecute_other_error [OF spawnENOENT_message] onStart_def)
next
  assume idle: "currentTask manager = None"
  let ?started = "runCargo_resume (command, args, force, Detached) cwd manager"
  have h: "length (heap ?started) = Suc (length (heap manager))"
    "pending (heap ?started ! length (heap manager))"
    "awaiter (heap ?started ! length (heap manager)) = ByRunCargo Detached"
    "informationMessages ?started = informationMessages manager"
    "channel ?started = ''Started cargo '' @ command @ '' ''
         @ join (messageFormatArgs command args) '' '' @ newline"
    using idle by (simp_all add: runCargo_resume_def spawnTask_def Let_def onStart_def)
  have s: "step J ?started
      (ProcessFailed (length (heap manager)) (spawnENOENT path) seconds) =
    settle (length (heap manager))
      (onProcessError (cargoTask (heap ?started ! length (heap manager))) (spawnENOENT path))
      seconds ?started"
    using h(1,2) by simp
  show "informationMessages
          (step J ?started
             (ProcessFailed (length (heap manager)) (spawnENOENT path) seconds)) =
          informationMessages manager"
    unfolding s
    by (simp add: settle_def runCargo_settled_def runCargo_return_def onProcessError_def
        afterExecute_other_error [OF spawnENOENT_message] h(3,4))
  show "channel
          (step J ?started
             (ProcessFailed (length (heap manager)) (spawnENOENT path) seconds)) =
          ''Started cargo '' @ command @ '' ''
            @ join (messageFormatArgs command args) '' '' @ newline"
    unfolding s
    by (simp add: settle_def runCargo_settled_def runCargo_return_def onProcessError_def
        afterExecute_other_error [OF spawnENOENT_message] h(3,5))
  show "currentTask
          (step J ?started
             (ProcessFailed (length (heap manager)) (spawnENOENT path) seconds)) = None"
    unfolding s
    by (simp add: settle_def runCargo_settled_def runCargo_return_def onProcessError_def
        afterExecute_other_error [OF spawnENOENT_message] h(3))
qed

text \<open>A build requested of a new manager, and of a new task, where \<open>cargo\<close> is not installed.\<close>

theorem spawn_failure_not_reported_witness:
  "currentTask (new_CargoTaskManager True) = None
   \<and> spawnENOENT ''cargo'' = ProcessError ''spawn cargo ENOENT'' ''ENOENT''
   \<and> informationMessages
        (step sample_JSON_parse
           (runCargo_resume (''build'', [], True, Detached) ''/work'' (new_CargoTaskManager True))
           (ProcessFailed 0 (spawnENOENT ''cargo'') ''0.012'')) = []
   \<and> channel
        (step sample_JSON_parse
           (runCargo_resume (''build'', [], True, Detached) ''/work'' (new_CargoTaskManager True))
           (ProcessFailed 0 (spawnENOENT ''cargo'') ''0.012'')) =
      ''Started cargo build --message-format json'' @ newline
   \<and> informationMessages (execute_settled (Rejected (Some (spawnENOENT ''cargo''))) ''0.012''
        (execute_begin ''build'' [] 0 new_OutputChannelCargoTask)) = []
   \<and> channel (execute_settled (Rejected (Some (spawnENOENT ''cargo''))) ''0.012''
        (execute_begin ''build'' [] 0 new_OutputChannelCargoTask)) =
      ''Started cargo build --message-format json'' @ newline"
proof -
  have idle: "currentTask (new_CargoTaskManager True) = None"
    "length (heap (new_CargoTaskManager True)) = 0"
    "informationMessages (new_CargoTaskManager True) = []"
    by (simp_all add: new_CargoTaskManager_def)
  have j: "''Started cargo '' @ ''build'' @ '' '' @ join (messageFormatArgs ''build'' []) '' ''
      @ newline = ''Started cargo build --message-format json'' @ newline"
    by (simp add: messageFormatArgs_def)
  have n: "informationMessages new_OutputChannelCargoTask = []"
    by (simp add: new_OutputChannelCargoTask_def)
  have e: "spawnENOENT ''cargo'' = ProcessError ''spawn cargo ENOENT'' ''ENOENT''"
    by (simp add: spawnENOENT_def)
  note t = spawn_failure_not_reported [where manager = "new_CargoTaskManager True"
        and command = "''build''" and args = "[]" and force = True and cwd = "''/work''"
        and J = sample_JSON_parse and seconds = "''0.012''" and child = 0
        and this = new_OutputChannelCargoTask and path = "''cargo''"]
  have a: "informationMessages
        (step sample_JSON_parse
           (runCargo_resume (''build'', [], True, Detached) ''/work'' (new_CargoTaskManager True))
           (ProcessFailed 0 (spawnENOENT ''cargo'') ''0.012'')) = []"
    using t idle by simp
  have b: "channel
        (step sample_JSON_parse
           (runCargo_resume (''build'', [], True, Detached) ''/work'' (new_CargoTaskManager True))
           (ProcessFailed 0 (spawnENOENT ''cargo'') ''0.012'')) =
      ''Started cargo build --message-format json'' @ newline"
    using t idle j by simp
  have c: "informationMessages (execute_settled (Rejected (Some (spawnENOENT ''cargo''))) ''0.012''
        (execute_begin ''build'' [] 0 new_OutputChannelCargoTask)) = []"
    using t n by simp
  have d: "channel (execute_settled (Rejected (Some (spawnENOENT ''cargo''))) ''0.012''
        (execute_begin ''build'' [] 0 new_OutputChannelCargoTask)) =
      ''Started cargo build --message-format json'' @ newline"
    using t j by simp
  show ?thesis
    using idle(1) e a b c d by blast
qed

text \<open>
  The notification is reached only by an error whose message is \<open>ENOENT\<close> and nothing
  else. For such an error the \<open>catch\<close> block, which has no \<open>return\<close> after the
  notification, goes on to the statements after the \<open>try\<close>: the two completion lines
  are appended, with the code \<open>undefined\<close>.
\<close>

lemma exact_ENOENT_message_falls_through:
  "informationMessages (execute_settled (Rejected (Some (ProcessError ''ENOENT'' ''ENOENT'')))
      ''0.012'' (execute_begin ''build'' [] 0 new_OutputChannelCargoTask)) = [cargoNotAvailable]
   \<and> channel (execute_settled (Rejected (Some (ProcessError ''ENOENT'' ''ENOENT''))) ''0.012''
      (execute_begin ''build'' [] 0 new_OutputChannelCargoTask)) =
     ''Started cargo build --message-format json'' @ newline
     @ ''Completed with code undefined'' @ newline
     @ ''It took approximately 0.012 seconds'' @ newline
   \<and> channel (run sample_JSON_parse (new_CargoTaskManager True)
        [RunCargo ''build'' [] True, CwdSettled 0 (Inr ''/work''),
         ProcessFailed 0 (ProcessError ''ENOENT'' ''ENOENT'') ''0.012'']) =
     ''Started cargo build --message-format json'' @ newline
     @ ''Completed with code undefined'' @ newline
     @ ''It took approximately 0.012 seconds'' @ newline"
  by (simp add: execute_settled_def execute_begin_def new_OutputChannelCargoTask_def run_simps)

subsection \<open>Repeated kill\<close>

text \<open>
  Claim C4, at the calls it is about. A second \<open>kill()\<close> on any task, and a \<open>kill()\<close> on
  a task whose process has exited, leave the task as it is, so no further signal is
  sent; the promise they return is never resolved.
\<close>

theorem kill_again_never_resolves:
  "kill (fst (kill this)) = (fst (kill this), NeverResolved)
   \<and> kill (this\<lparr>process := None\<rparr>) = (this\<lparr>process := None\<rparr>, NeverResolved)"
  by (simp add: kill_def)

theorem kill_again_never_resolves_witness:
  "kill \<lparr>process = Some 7, interrupted = False\<rparr> =
      (\<lparr>process = Some 7, interrupted = True\<rparr>, ResolvedByTreeKill 7)
   \<and> kill \<lparr>process = Some 7, interrupted = True\<rparr> =
      (\<lparr>process = Some 7, interrupted = True\<rparr>, NeverResolved)
   \<and> kill \<lparr>process = None, interrupted = False\<rparr> =
      (\<lparr>process = None, interrupted = False\<rparr>, NeverResolved)"
proof -
  have first: "kill \<lparr>process = Some 7, interrupted = False\<rparr> =
      (\<lparr>process = Some 7, interrupted = True\<rparr>, ResolvedByTreeKill 7)"
    by (simp add: kill_def)
  show ?thesis
    using kill_again_never_resolves [of "\<lparr>process = Some 7, interrupted = False\<rparr>"] first
    by simp
qed


subsection \<open>The availability probe of cargo check\<close>

lemma probes_of_invocation:
  "filter isProbe (invokeCargoCheckWithArgs probe args) = [Execute ''check'' [''--help''] ''/'']"
  by (simp add: invokeCargoCheckWithArgs_def checkCargoCheckAvailability_def
      split: Settlement.splits)

text \<open>
  Claim C5, as the code has it. Every invocation runs the probe, so a series of
  invocations runs as many probes as it has invocations. A probe that exits with 0 is
  followed by \<open>runCargo('check', args, true)\<close>, a probe that exits with another code or on
  a signal by \<open>runCargo('rustc', args, true)\<close> with \<open>--\<close> and \<open>-Zno-trans\<close> appended to
  the arguments, and a probe whose promise is rejected by no call of \<open>runCargo\<close>.
\<close>

theorem check_probe_per_invocation:
  "length (filter isProbe (checkInvocations invocations)) = length invocations
   \<and> invokeCargoCheckWithArgs (Resolved (Some 0)) args =
       [Execute ''check'' [''--help''] ''/'', RunCargoCall ''check'' args True]
   \<and> (exitCode \<noteq> Some 0 \<longrightarrow>
        invokeCargoCheckWithArgs (Resolved exitCode) args =
          [Execute ''check'' [''--help''] ''/'',
           RunCargoCall ''rustc'' (args @ [''--'', ''-Zno-trans'']) True])
   \<and> invokeCargoCheckWithArgs (Rejected err) args = [Execute ''check'' [''--help''] ''/'']"
proof (intro conjI impI)
  show "invokeCargoCheckWithArgs (Rejected err) args = [Execute ''check'' [''--help''] ''/'']"
    by (simp add: invokeCargoCheckWithArgs_def checkCargoCheckAvailability_def)
  show "length (filter isProbe (checkInvocations invocations)) = length invocations"
    by (induction invocations) (auto simp: probes_of_invocation)
  show "invokeCargoCheckWithArgs (Resolved (Some 0)) args =
      [Execute ''check'' [''--help''] ''/'', RunCargoCall ''check'' args True]"
    by (simp add: invokeCargoCheckWithArgs_def checkCargoCheckAvailability_def)
  assume "exitCode \<noteq> Some 0"
  then show "invokeCargoCheckWithArgs (Resolved exitCode) args =
      [Execute ''check'' [''--help''] ''/'',
       RunCargoCall ''rustc'' (args @ [''--'', ''-Zno-trans'']) True]"
    by (simp add: invokeCargoCheckWithArgs_def checkCargoCheckAvailability_def)
qed

theorem check_probe_per_invocation_witness:
  "Some 101 \<noteq> Some (0::int)
   \<and> invokeCargoCheckWithArgs (Resolved (Some 101)) [''--lib''] =
       [Execute ''check'' [''--help''] ''/'',
        RunCargoCall ''rustc'' [''--lib'', ''--'', ''-Zno-trans''] True]
   \<and> length (filter isProbe (checkInvocations
        [(Resolved (Some 101), [''--lib'']), (Resolved (Some 0), []),
         (Rejected None, [])])) = 3"
  using check_probe_per_invocation [of
      "[(Resolved (Some 101), [''--lib'']), (Resolved (Some 0), []), (Rejected None, [])]"
      "[''--lib'']" "Some 101" None]
  by (simp add: probes_of_invocation)

text \<open>
  The claim as written has the probe run once. Two invocations whose probes exit with
  101 run two probes.
\<close>

theorem check_probe_repeated_counterexample:
  "checkInvocations [(Resolved (Some 101), [''--lib'']), (Resolved (Some 101), [''--lib''])] =
     [Execute ''check'' [''--help''] ''/'',
      RunCargoCall ''rustc'' [''--lib'', ''--'', ''-Zno-trans''] True,
      Execute ''check'' [''--help''] ''/'',
      RunCargoCall ''rustc'' [''--lib'', ''--'', ''-Zno-trans''] True]
   \<and> length (filter isProbe (checkInvocations
        [(Resolved (Some 101), [''--lib'']), (Resolved (Some 101), [''--lib''])])) = 2"
  by (simp add: invokeCargoCheckWithArgs_def checkCargoCheckAvailability_def)


subsection \<open>Routing of output lines\<close>

text \<open>
  Claim C6, as the code has it. A stdout line whose first character is \<open>{\<close> goes to the
  parser: the counter of the parser is kept, and the diagnostics are published with the
  working directory when publishing is enabled; the channel is left alone. Every other
  stdout line, and every stderr line, is appended to the channel, followed by a newline.
\<close>

theorem stdout_routing:
  "onStdoutLine J enabled cwd (CHR ''{'' # rest) s =
     s\<lparr>diagnosticParser := snd (parseLine J (diagnosticParser s) (CHR ''{'' # rest)),
       diagnostics := diagnostics s
         @ (if enabled
            then map (\<lambda>d. (d, cwd)) (emitted (parseLine J (diagnosticParser s) (CHR ''{'' # rest)))
            else [])\<rparr>
   \<and> ((\<forall>rest. line \<noteq> CHR ''{'' # rest) \<longrightarrow>
        onStdoutLine J enabled cwd line s = s\<lparr>channel := channel s @ line @ newline\<rparr>)
   \<and> onStderrLine line s = s\<lparr>channel := channel s @ line @ newline\<rparr>"
proof (intro conjI impI)
  show "onStdoutLine J enabled cwd (CHR ''{'' # rest) s =
     s\<lparr>diagnosticParser := snd (parseLine J (diagnosticParser s) (CHR ''{'' # rest)),
       diagnostics := diagnostics s
         @ (if enabled
            then map (\<lambda>d. (d, cwd)) (emitted (parseLine J (diagnosticParser s) (CHR ''{'' # rest)))
            else [])\<rparr>"
    by (cases "parseLine J (diagnosticParser s) (CHR ''{'' # rest)")
       (simp add: onStdoutLine_def startsWith_def emitted_def split: sum.splits)
  show "onStderrLine line s = s\<lparr>channel := channel s @ line @ newline\<rparr>"
    by (simp add: onStderrLine_def)
next
  assume "\<forall>rest. line \<noteq> CHR ''{'' # rest"
  then have "\<not> startsWith line ''{''"
    by (cases line) (simp_all add: startsWith_def)
  then show "onStdoutLine J enabled cwd line s = s\<lparr>channel := channel s @ line @ newline\<rparr>"
    by (simp add: onStdoutLine_def)
qed

theorem stdout_routing_witness:
  "(\<forall>rest. ''   Compiling demo v0.1.0'' \<noteq> CHR ''{'' # rest)
   \<and> onStdoutLine sample_JSON_parse True ''/work'' ''   Compiling demo v0.1.0''
        new_OutputChannelCargoTask =
      new_OutputChannelCargoTask\<lparr>channel := ''   Compiling demo v0.1.0'' @ newline\<rparr>
   \<and> diagnostics (onStdoutLine sample_JSON_parse True ''/work''
        ''{\"message\":A,\"reason\":\"compiler-message\"}'' new_OutputChannelCargoTask) =
      [(\<lparr>filePath = ''src/main.rs'',
         diagnostic = \<lparr>diag_range =
             \<lparr>startLine = 2, startCharacter = 4, endLine = 2, endCharacter = 11\<rparr>,
           diag_message = ''cannot assign to immutable anonymous field `f.1`'',
           severity = Error\<rparr>\<rparr>, ''/work'')]
   \<and> channel (onStdoutLine sample_JSON_parse True ''/work''
        ''{\"message\":A,\"reason\":\"compiler-message\"}'' new_OutputChannelCargoTask) = []"
proof -
  have h: "\<forall>rest. ''   Compiling demo v0.1.0'' \<noteq> CHR ''{'' # rest"
    by simp
  have p: "parseLine sample_JSON_parse (diagnosticParser new_OutputChannelCargoTask)
      (CHR ''{'' # ''\"message\":A,\"reason\":\"compiler-message\"}'') =
    (Inr [\<lparr>filePath = ''src/main.rs'',
         diagnostic = \<lparr>diag_range =
             \<lparr>startLine = 2, startCharacter = 4, endLine = 2, endCharacter = 11\<rparr>,
           diag_message = ''cannot assign to immutable anonymous field `f.1`'',
           severity = Error\<rparr>\<rparr>], new_DiagnosticParser)"
    by (simp add: parseLine_def sample_JSON_parse_def parseCompilerMessage_def
        isComplexCompilerMessage_def parseSimpleCompilerMessage_def message_A_def span_A_def
        spanRange_def codePrefix_def toSeverity_def new_OutputChannelCargoTask_def)
  show ?thesis
    using stdout_routing [where J = sample_JSON_parse and enabled = True and cwd = "''/work''"
        and line = "''   Compiling demo v0.1.0''" and s = new_OutputChannelCargoTask
        and rest = "''\"message\":A,\"reason\":\"compiler-message\"}''"] h p
    by (simp add: emitted_def new_OutputChannelCargoTask_def)
qed

text \<open>
  The claim as written looks at the first character that is not white space. The line
  below starts with two blanks and then \<open>{\<close>, and \<open>JSON.parse\<close> takes it; the callback
  of either class appends it to the channel.
\<close>

theorem stdout_leading_blank_counterexample:
  "onStdoutLine sample_JSON_parse True ''/work''
      ''  {\"message\":A,\"reason\":\"compiler-message\"}'' new_OutputChannelCargoTask =
     new_OutputChannelCargoTask
       \<lparr>channel := ''  {\"message\":A,\"reason\":\"compiler-message\"}'' @ newline\<rparr>
   \<and> step sample_JSON_parse
        (run sample_JSON_parse (new_CargoTaskManager True)
          [RunCargo ''build'' [] True, CwdSettled 0 (Inr ''/work'')])
        (Stdout 0 ''  {\"message\":A,\"reason\":\"compiler-message\"}'') =
      (run sample_JSON_parse (new_CargoTaskManager True)
          [RunCargo ''build'' [] True, CwdSettled 0 (Inr ''/work'')])
       \<lparr>channel := ''Started cargo build --message-format json'' @ newline
          @ ''  {\"message\":A,\"reason\":\"compiler-message\"}'' @ newline\<rparr>
   \<and> length (emitted (parseLine sample_JSON_parse new_DiagnosticParser
        ''  {\"message\":A,\"reason\":\"compiler-message\"}'')) = 1"
  by (simp add: onStdoutLine_def startsWith_def run_simps
      emitted_def parseLine_def sample_JSON_parse_def parseCompilerMessage_def
      isComplexCompilerMessage_def parseSimpleCompilerMessage_def message_A_def span_A_def
      new_OutputChannelCargoTask_def)

end
